theory Spec2Isabelle
  imports Complex_Main "HOL-Library.Log_Nat"
begin

section \<open>Python values, errors and loops\<close>

text \<open>
  The three scripts (BB84Ideal.py, EntanglementBasedProtocolIdeal.py and
  EntanglementBasedProtocolNoisy.py) work on sequences of Python integers (bits, basis
  and pairing labels), on lists of quantum circuits and on the memory strings the
  simulator backend returns. Integers are \<open>int\<close>, sequences are lists, a raise is the
  left summand of a sum type. The module constants \<open>numBits\<close>, \<open>numPairings\<close>,
  \<open>numTests\<close> and \<open>evePresent\<close> are passed to every function that reads them as an
  explicit first argument, so that the theorems hold for every configuration; the
  shipped values are recorded below.
\<close>

datatype error = IndexError | ValueError | TypeError | ZeroDivisionError

definition numTests :: nat where "numTests = 10000"
definition numBits :: nat where "numBits = 50"
definition numPairings :: nat where "numPairings = 25"
definition evePresent :: bool where "evePresent = True"

text \<open>\<open>xs[i]\<close> for a non-negative index: IndexError when out of range.\<close>

definition get :: "'a list \<Rightarrow> nat \<Rightarrow> error + 'a" where
  "get xs i = (if i < length xs then Inr (xs ! i) else Inl IndexError)"

text \<open>Sequencing of two computations that may raise.\<close>

definition bindE :: "error + 'a \<Rightarrow> ('a \<Rightarrow> error + 'b) \<Rightarrow> error + 'b" where
  "bindE m f = (case m of Inl e \<Rightarrow> Inl e | Inr v \<Rightarrow> f v)"

text \<open>
  \<open>for i in range(n): body\<close> is \<open>for_range [0..<n] body\<close>: the body maps the loop
  variables to their new values, and a raise in the body leaves the loop.
\<close>

fun for_range :: "nat list \<Rightarrow> (nat \<Rightarrow> 's \<Rightarrow> error + 's) \<Rightarrow> 's \<Rightarrow> error + 's" where
  "for_range [] body s = Inr s"
| "for_range (i # is) body s =
     (case body i s of Inl e \<Rightarrow> Inl e | Inr s' \<Rightarrow> for_range is body s')"

text \<open>
  The values a QBER variable holds: the string \<open>"null"\<close>, the integer \<open>1\<close>, or a
  float. A Python float is a double, and every float operation returns the double
  nearest to the exact result, a tie going to the even significand. \<open>PFloat r\<close> stands
  for the double nearest to the rational \<open>r\<close>: the rounding of the operation that
  produced the value is left to this reading, so that the quotient \<open>a / b\<close> of two
  integers, which Python rounds once, is \<open>PFloat\<close> of the exact quotient. An operation
  of the estimators that reads a float produced by an earlier operation rounds it first,
  with \<open>rnd_double\<close> below. The running sum and the average of the BB84 driver
  (\<open>py_add\<close> and \<open>py_div_nat\<close> on a float) add and divide the exact values.
\<close>

datatype pyval = PStr string | PInt int | PFloat rat

text \<open>
  Rounding of a rational to the nearest double. \<open>round_half_even\<close> is the nearest
  integer, the even one at a tie. \<open>exponent2 x\<close> is the binary exponent of a positive
  \<open>x\<close>, the \<open>e\<close> with \<open>2 ^ e \<le> x < 2 ^ (e + 1)\<close>, found from the bit lengths of
  numerator and denominator. \<open>rnd_double x\<close> scales \<open>x\<close> to a significand of 53 bits,
  rounds the significand and scales back. The exponent range of a double is not
  bounded: the floats of the scripts are ratios of list lengths, far from overflow and
  from the subnormal range.
\<close>

definition round_half_even :: "rat \<Rightarrow> int" where
  "round_half_even m =
     (let f = \<lfloor>m\<rfloor>; r = m - of_int f
      in if r < 1 / 2 then f else if 1 / 2 < r then f + 1 else if even f then f else f + 1)"

definition exponent2 :: "rat \<Rightarrow> int" where
  "exponent2 x =
     (let (p, q) = quotient_of x; d = bitlen p - bitlen q
      in if 2 powi d \<le> x then d else d - 1)"

definition rnd_double :: "rat \<Rightarrow> rat" where
  "rnd_double x =
     (if x = 0 then 0
      else let a = \<bar>x\<bar>; e = exponent2 a - 52
           in sgn x * of_int (round_half_even (a / 2 powi e)) * 2 powi e)"

text \<open>The double that a float value is, as a rational; other values are no floats.\<close>

fun float_val :: "pyval \<Rightarrow> rat option" where
  "float_val (PFloat r) = Some (rnd_double r)"
| "float_val (PInt i) = None"
| "float_val (PStr s) = None"

text \<open>
  Python's \<open>==\<close> on these values: numbers compare by value, a string equals only a
  string. A float is compared by the rational it stands for.
\<close>

fun py_eq :: "pyval \<Rightarrow> pyval \<Rightarrow> bool" where
  "py_eq (PStr s) (PStr t) = (s = t)"
| "py_eq (PInt i) (PInt j) = (i = j)"
| "py_eq (PFloat a) (PFloat b) = (a = b)"
| "py_eq (PInt i) (PFloat b) = (of_int i = b)"
| "py_eq (PFloat a) (PInt j) = (a = of_int j)"
| "py_eq _ _ = False"



text \<open>\<open>a / n\<close> for a count \<open>n\<close>: true division, ZeroDivisionError at 0.\<close>

fun py_div_nat :: "pyval \<Rightarrow> nat \<Rightarrow> error + pyval" where
  "py_div_nat (PStr s) n = Inl TypeError"
| "py_div_nat (PInt i) n = (if n = 0 then Inl ZeroDivisionError else Inr (PFloat (of_int i / of_nat n)))"
| "py_div_nat (PFloat a) n = (if n = 0 then Inl ZeroDivisionError else Inr (PFloat (a / of_nat n)))"

section \<open>Quantum circuits\<close>

text \<open>
  A circuit is what \<open>QuantumCircuit(q, c)\<close> builds: the two register sizes and the
  ordered list of operations appended so far. Each circuit method appends one operation.
\<close>

datatype gate = H nat | X nat | Z nat | CX nat nat | Barrier | Measure nat nat

record circuit =
  num_qubits :: nat
  num_clbits :: nat
  data :: "gate list"

definition QuantumCircuit :: "nat \<Rightarrow> nat \<Rightarrow> circuit" where
  "QuantumCircuit q c = \<lparr>num_qubits = q, num_clbits = c, data = []\<rparr>"

definition append_gate :: "gate \<Rightarrow> circuit \<Rightarrow> circuit" where
  "append_gate g qc = qc\<lparr>data := data qc @ [g]\<rparr>"

abbreviation qc_h :: "nat \<Rightarrow> circuit \<Rightarrow> circuit" where "qc_h q \<equiv> append_gate (H q)"
abbreviation qc_x :: "nat \<Rightarrow> circuit \<Rightarrow> circuit" where "qc_x q \<equiv> append_gate (X q)"
abbreviation qc_z :: "nat \<Rightarrow> circuit \<Rightarrow> circuit" where "qc_z q \<equiv> append_gate (Z q)"
abbreviation qc_cx :: "nat \<Rightarrow> nat \<Rightarrow> circuit \<Rightarrow> circuit" where "qc_cx c t \<equiv> append_gate (CX c t)"
abbreviation qc_barrier :: "circuit \<Rightarrow> circuit" where "qc_barrier \<equiv> append_gate Barrier"
abbreviation qc_measure :: "nat \<Rightarrow> nat \<Rightarrow> circuit \<Rightarrow> circuit" where
  "qc_measure q c \<equiv> append_gate (Measure q c)"

text \<open>
  The simulator backend is an external collaborator. \<open>sim k qc\<close> is the memory string
  (\<open>get_memory()[0]\<close>, one shot) that the backend returns for the circuit \<open>qc\<close> in
  iteration \<open>k\<close> of the calling loop; the iteration index stands for the randomness of the
  shot, so that two runs of equal circuits may differ.
\<close>

type_synonym simulator = "nat \<Rightarrow> circuit \<Rightarrow> string"

text \<open>\<open>int(s)\<close> on a string of decimal digits; any other string is modelled as ValueError.\<close>

definition digit_val :: "char \<Rightarrow> int" where
  "digit_val c = int (of_char c) - 48"

definition is_digit :: "char \<Rightarrow> bool" where
  "is_digit c = (48 \<le> (of_char c :: nat) \<and> (of_char c :: nat) \<le> 57)"

definition py_int :: "string \<Rightarrow> error + int" where
  "py_int s = (if s \<noteq> [] \<and> list_all is_digit s
               then Inr (foldl (\<lambda>a c. 10 * a + digit_val c) 0 s) else Inl ValueError)"

section \<open>BB84Ideal.py\<close>

text \<open>One iteration of the loop of \<open>encode_message\<close>: the circuit for bit \<open>i\<close>.\<close>

definition encode_qubit :: "int list \<Rightarrow> int list \<Rightarrow> nat \<Rightarrow> error + circuit" where
  "encode_qubit bits bases i =
     (let qc = QuantumCircuit 1 1 in
      bindE (get bases i) (\<lambda>basis.
      bindE (get bits i) (\<lambda>bit.
        Inr (qc_barrier
          (if basis = 0 then (if bit = 0 then qc else qc_x 0 qc)
           else (if bit = 0 then qc_h 0 qc else qc_h 0 (qc_x 0 qc)))))))"

definition encode_message :: "nat \<Rightarrow> int list \<Rightarrow> int list \<Rightarrow> error + circuit list" where
  "encode_message n bits bases =
     for_range [0..<n]
       (\<lambda>i message. bindE (encode_qubit bits bases i) (\<lambda>qc. Inr (message @ [qc]))) []"

text \<open>
  The gates \<open>measure_message\<close> appends to circuit \<open>q\<close> for a basis label: the two
  \<open>if\<close>s of the source, in order. A label other than 0 and 1 appends nothing.
\<close>

definition measure_basis :: "int \<Rightarrow> circuit \<Rightarrow> circuit" where
  "measure_basis basis qc =
     (let qc = (if basis = 0 then qc_measure 0 0 qc else qc) in
      if basis = 1 then qc_measure 0 0 (qc_h 0 qc) else qc)"

text \<open>
  \<open>measure_message\<close> changes the circuits of its argument in place. The model returns
  the list of measurements together with the message list as the call leaves it.
\<close>

definition measure_message ::
  "nat \<Rightarrow> simulator \<Rightarrow> circuit list \<Rightarrow> int list \<Rightarrow> error + (int list \<times> circuit list)" where
  "measure_message n sim message bases =
     for_range [0..<n]
       (\<lambda>q (measurements, message).
          bindE (get message q) (\<lambda>qc.
          bindE (get bases q) (\<lambda>basis.
            let qc = measure_basis basis qc;
                measuredBits = sim q qc
            in bindE (py_int measuredBits) (\<lambda>measured_bit.
                 Inr (measurements @ [measured_bit], message[q := qc])))))
       ([], message)"

definition discardBits ::
  "nat \<Rightarrow> int list \<Rightarrow> int list \<Rightarrow> int list \<Rightarrow> int list \<Rightarrow> error + (int list \<times> int list)" where
  "discardBits n results aliceBits aliceBases bobBases =
     for_range [0..<n]
       (\<lambda>i (newResults, newAliceBits).
          bindE (get aliceBases i) (\<lambda>a.
          bindE (get bobBases i) (\<lambda>b.
            if a = b then
              bindE (get results i) (\<lambda>r.
              bindE (get aliceBits i) (\<lambda>ab.
                Inr (newResults @ [r], newAliceBits @ [ab])))
            else Inr (newResults, newAliceBits))))
       ([], [])"

definition measureQBER :: "int list \<Rightarrow> int list \<Rightarrow> error + pyval" where
  "measureQBER newResults newAliceBits =
     (if length newResults = 0 then Inr (PStr ''null'')
      else
        bindE (for_range [0..<length newResults]
                 (\<lambda>i QBER.
                    bindE (get newResults i) (\<lambda>r.
                    bindE (get newAliceBits i) (\<lambda>a.
                      Inr (if r \<noteq> a then QBER + 1 else QBER))))
                 (0::int))
          (\<lambda>QBER. py_div_nat (PInt QBER) (length newResults)))"

text \<open>
  The random draws of one trial (\<open>np.random.randint\<close>) and the shots of the two
  measurement calls are inputs of the model.
\<close>

record bb84_draw =
  alice_bits :: "int list"
  alice_bases :: "int list"
  eve_bases :: "int list"
  bob_bases :: "int list"
  eve_sim :: simulator
  bob_sim :: simulator

text \<open>The local variables of \<open>runProtocol\<close> at its return; \<open>t_QBER\<close> is what it returns.\<close>

record bb84_trial =
  t_message :: "circuit list"
  t_intercepted_message :: "int list"
  t_new_message :: "circuit list"
  t_bob_results :: "int list"
  t_newResults :: "int list"
  t_newAliceBits :: "int list"
  t_QBER :: pyval

text \<open>
  \<open>t_message\<close> is recorded as \<open>encode_message\<close> returned it and \<open>t_new_message\<close> as Eve's
  \<open>encode_message\<close> returned it, before the measurement that follows changes them.
\<close>

definition runProtocol_trial :: "nat \<Rightarrow> bb84_draw \<Rightarrow> error + bb84_trial" where
  "runProtocol_trial n d =
     bindE (encode_message n (alice_bits d) (alice_bases d)) (\<lambda>msg.
     bindE (measure_message n (eve_sim d) msg (eve_bases d)) (\<lambda>(intercepted, msg').
     bindE (encode_message n intercepted (eve_bases d)) (\<lambda>new_msg.
     bindE (measure_message n (bob_sim d) new_msg (bob_bases d)) (\<lambda>(results, new_msg').
     bindE (discardBits n results (alice_bits d) (alice_bases d) (bob_bases d)) (\<lambda>(nr, na).
     bindE (measureQBER nr na) (\<lambda>q.
       Inr \<lparr>t_message = msg, t_intercepted_message = intercepted, t_new_message = new_msg,
            t_bob_results = results, t_newResults = nr, t_newAliceBits = na, t_QBER = q\<rparr>))))))"








section \<open>EntanglementBasedProtocolIdeal.py and EntanglementBasedProtocolNoisy.py\<close>

text \<open>
  The two scripts differ in the backend that runs a circuit (and in comments); the
  backend is the parameter \<open>sim\<close>, so one model covers both.
\<close>

definition createBellState :: "circuit \<Rightarrow> nat \<Rightarrow> nat \<Rightarrow> circuit" where
  "createBellState qc qubit0 qubit1 = qc_cx qubit0 qubit1 (qc_h qubit0 qc)"

text \<open>The pairing chosen by a label: \<open>pair1\<close> and \<open>pair2\<close> of the source.\<close>

definition pairing :: "int \<Rightarrow> (nat \<times> nat) \<times> (nat \<times> nat)" where
  "pairing p = (if p = 0 then ((0, 1), (2, 3))
                else if p = 1 then ((0, 2), (1, 3))
                else ((0, 3), (1, 2)))"

text \<open>
  The gates chosen by the two bits of a block. The source tests
  \<open>bits[2*i] == a and bits[2*i+1] == b\<close> four times; \<open>and\<close> reads the second bit only
  when the first test holds, so a first bit other than 0 and 1 reads no second bit,
  and a block that is none of the four cases adds no gate.
\<close>

definition encode_bits ::
  "int list \<Rightarrow> nat \<Rightarrow> (nat \<times> nat) \<Rightarrow> (nat \<times> nat) \<Rightarrow> circuit \<Rightarrow> error + circuit" where
  "encode_bits bits i pair1 pair2 qc =
     bindE (get bits (2 * i)) (\<lambda>b0.
       if b0 = 0 then
         bindE (get bits (2 * i + 1)) (\<lambda>b1.
           Inr (if b1 = 0 then qc_x (fst pair2) qc
                else if b1 = 1 then qc_x (fst pair1) qc
                else qc))
       else if b0 = 1 then
         bindE (get bits (2 * i + 1)) (\<lambda>b1.
           Inr (if b1 = 0 then qc_x (snd pair2) (qc_z (fst pair2) (qc_z (snd pair1) qc))
                else if b1 = 1 then qc_z (snd pair2) (qc_x (snd pair1) (qc_z (fst pair1) qc))
                else qc))
       else Inr qc)"

definition encode_block :: "int list \<Rightarrow> int list \<Rightarrow> nat \<Rightarrow> error + circuit" where
  "encode_block bits pairs i =
     (let qc = QuantumCircuit 4 4 in
      bindE (get pairs i) (\<lambda>p.
        let (pair1, pair2) = pairing p;
            qc = createBellState qc (fst pair1) (snd pair1);
            qc = createBellState qc (fst pair2) (snd pair2);
            qc = qc_barrier qc
        in bindE (encode_bits bits i pair1 pair2 qc) (\<lambda>qc. Inr (qc_barrier qc))))"

definition encodeMessage :: "nat \<Rightarrow> int list \<Rightarrow> int list \<Rightarrow> error + circuit list" where
  "encodeMessage n bits pairs =
     for_range [0..<n]
       (\<lambda>i message. bindE (encode_block bits pairs i) (\<lambda>qc. Inr (message @ [qc]))) []"

text \<open>The gates \<open>decodeMessage\<close> appends to a circuit for a pairing label.\<close>

definition decode_gates :: "int \<Rightarrow> circuit \<Rightarrow> circuit" where
  "decode_gates p qc =
     (let (pair1, pair2) = pairing p;
          qc = qc_cx (fst pair1) (snd pair1) qc;
          qc = qc_h (fst pair1) qc;
          qc = qc_cx (fst pair2) (snd pair2) qc;
          qc = qc_h (fst pair2) qc;
          qc = qc_measure (fst pair1) 3 qc;
          qc = qc_measure (snd pair1) 2 qc;
          qc = qc_measure (fst pair2) 1 qc;
          qc = qc_measure (snd pair2) 0 qc
      in qc)"

text \<open>The \<open>if\<close>/\<open>elif\<close>/\<open>else\<close> chain on the memory string: the two bits appended.\<close>

definition decode_lookup :: "string \<Rightarrow> int list" where
  "decode_lookup measured =
     (if measured = ''0001'' then [0, 0]
      else if measured = ''0100'' then [0, 1]
      else if measured = ''1011'' then [1, 0]
      else [1, 1])"

definition decodeMessage ::
  "nat \<Rightarrow> simulator \<Rightarrow> circuit list \<Rightarrow> int list \<Rightarrow> error + (int list \<times> circuit list)" where
  "decodeMessage n sim message pairs =
     for_range [0..<n]
       (\<lambda>i (results, message).
          bindE (get message i) (\<lambda>qc.
          bindE (get pairs i) (\<lambda>p.
            let qc = decode_gates p qc;
                measuredBits = sim i qc
            in Inr (results @ decode_lookup measuredBits, message[i := qc]))))
       ([], message)"

text \<open>
  \<open>1 - BER\<close>. On a float the operand is the double that the division before it
  returned.
\<close>

fun one_minus :: "pyval \<Rightarrow> error + pyval" where
  "one_minus (PStr s) = Inl TypeError"
| "one_minus (PInt i) = Inr (PInt (1 - i))"
| "one_minus (PFloat a) = Inr (PFloat (1 - rnd_double a))"

text \<open>
  The test \<open>xs[2*i] == ys[2*i] and xs[2*i+1] == ys[2*i+1]\<close> of \<open>measureBER\<close> and
  \<open>measureQBER\<close>: the second pair is read only when the first pair is equal.
\<close>

definition block_equal :: "int list \<Rightarrow> int list \<Rightarrow> nat \<Rightarrow> error + bool" where
  "block_equal xs ys i =
     bindE (get xs (2 * i)) (\<lambda>x0.
     bindE (get ys (2 * i)) (\<lambda>y0.
       if x0 = y0 then
         bindE (get xs (2 * i + 1)) (\<lambda>x1.
         bindE (get ys (2 * i + 1)) (\<lambda>y1. Inr (x1 = y1)))
       else Inr False))"

definition measureBER :: "nat \<Rightarrow> int list \<Rightarrow> int list \<Rightarrow> error + pyval" where
  "measureBER n aliceBits results =
     bindE (for_range [0..<n]
              (\<lambda>i BER. bindE (block_equal aliceBits results i)
                          (\<lambda>eq. Inr (if eq then BER + 1 else BER)))
              (0::int))
       (\<lambda>BER. bindE (py_div_nat (PInt BER) n) one_minus)"

definition discardBits_ent ::
  "nat \<Rightarrow> int list \<Rightarrow> int list \<Rightarrow> int list \<Rightarrow> int list \<Rightarrow> error + (int list \<times> int list)" where
  "discardBits_ent n results aliceBits alicePairs bobPairs =
     for_range [0..<n]
       (\<lambda>i (newResults, newAliceBits).
          bindE (get alicePairs i) (\<lambda>a.
          bindE (get bobPairs i) (\<lambda>b.
            if a = b then
              bindE (get results (2 * i)) (\<lambda>r0.
              bindE (get results (2 * i + 1)) (\<lambda>r1.
              bindE (get aliceBits (2 * i)) (\<lambda>a0.
              bindE (get aliceBits (2 * i + 1)) (\<lambda>a1.
                Inr (newResults @ [r0, r1], newAliceBits @ [a0, a1])))))
            else Inr (newResults, newAliceBits))))
       ([], [])"

text \<open>
  \<open>measureQBER\<close> of the entanglement scripts. The divisor \<open>len(newResults) / 2\<close> is a
  float, so \<open>QBER /= len(newResults) / 2\<close> converts the count to a float and divides two
  floats, and \<open>1 - QBER\<close> subtracts the double that this division returned. The loop
  bound \<open>int(len(newResults) / 2)\<close> is \<open>length newResults div 2\<close>: half of a length
  below \<open>2 ^ 53\<close> is a double (\<open>rnd_double_half\<close> below).
\<close>

definition measureQBER_ent :: "int list \<Rightarrow> int list \<Rightarrow> error + pyval" where
  "measureQBER_ent newResults newAliceBits =
     (if length newResults = 0 then Inr (PInt 1)
      else
        bindE (for_range [0..<length newResults div 2]
                 (\<lambda>i QBER. bindE (block_equal newResults newAliceBits i)
                              (\<lambda>eq. Inr (if eq then QBER + 1 else QBER)))
                 (0::int))
          (\<lambda>QBER. Inr (PFloat (1 - rnd_double (rnd_double (of_int QBER) /
                                   rnd_double (of_nat (length newResults) / 2))))))"

definition eveMeasureAndDecode ::
  "nat \<Rightarrow> simulator \<Rightarrow> int list \<Rightarrow> circuit list \<Rightarrow> error + circuit list" where
  "eveMeasureAndDecode n sim evePairs message =
     bindE (decodeMessage n sim message evePairs) (\<lambda>(eveResults, message').
       encodeMessage n eveResults evePairs)"

record ent_draw =
  d_aliceBits :: "int list"
  d_alicePairs :: "int list"
  d_evePairs :: "int list"
  d_bobPairs :: "int list"
  d_eveSim :: simulator
  d_bobSim :: simulator

text \<open>
  The local variables of the entanglement \<open>runProtocol\<close> at its return: \<open>e_sent\<close> is
  what \<open>encodeMessage\<close> returned for Alice and \<open>e_received\<close> is the variable
  \<open>message\<close> as it is handed to Bob's \<open>decodeMessage\<close>. The toggle \<open>evePresent\<close> is
  the argument \<open>eve\<close>.
\<close>

record ent_trial =
  e_sent :: "circuit list"
  e_received :: "circuit list"
  e_bobResults :: "int list"
  e_BER :: pyval
  e_newResults :: "int list"
  e_newAliceBits :: "int list"
  e_QBER :: pyval

definition runProtocol_ent_trial :: "nat \<Rightarrow> bool \<Rightarrow> ent_draw \<Rightarrow> error + ent_trial" where
  "runProtocol_ent_trial n eve d =
     bindE (encodeMessage n (d_aliceBits d) (d_alicePairs d)) (\<lambda>msg.
     bindE (if eve then eveMeasureAndDecode n (d_eveSim d) (d_evePairs d) msg else Inr msg) (\<lambda>msg2.
     bindE (decodeMessage n (d_bobSim d) msg2 (d_bobPairs d)) (\<lambda>(results, msg3).
     bindE (measureBER n (d_aliceBits d) results) (\<lambda>ber.
     bindE (discardBits_ent n results (d_aliceBits d) (d_alicePairs d) (d_bobPairs d)) (\<lambda>(nr, na).
     bindE (measureQBER_ent nr na) (\<lambda>q.
       Inr \<lparr>e_sent = msg, e_received = msg2, e_bobResults = results, e_BER = ber,
            e_newResults = nr, e_newAliceBits = na, e_QBER = q\<rparr>))))))"

definition runProtocol_ent :: "nat \<Rightarrow> bool \<Rightarrow> ent_draw \<Rightarrow> error + pyval" where
  "runProtocol_ent n eve d = bindE (runProtocol_ent_trial n eve d) (\<lambda>t. Inr (e_QBER t))"

section \<open>The ideal simulator\<close>

text \<open>
  The backend itself is not part of the scripts. What an ideal (noiseless) backend may
  return for a circuit is fixed by quantum mechanics, and is modelled here exactly: a
  state is a finite sum of basis states with integer amplitudes (the factor
  \<open>1/\<surd>2\<close> of each Hadamard gate is left out, which changes no amplitude to or from
  zero), a gate maps each term of the sum, and a measurement of a qubit may give a value
  when some term with that value remains. A basis state lists the qubits, qubit 0 first.
  A classical bit that no measurement writes stays 0 (the scripts measure every circuit
  they run, except for a BB84 basis label other than 0 and 1, which they never draw).
\<close>

type_synonym qstate = "(bool list \<times> int) list"

definition flip :: "nat \<Rightarrow> bool list \<Rightarrow> bool list" where
  "flip q b = b[q := \<not> b ! q]"

fun gate_term :: "gate \<Rightarrow> bool list \<times> int \<Rightarrow> qstate" where
  "gate_term (X q) (b, a) = [(flip q b, a)]"
| "gate_term (Z q) (b, a) = [(b, if b ! q then - a else a)]"
| "gate_term (H q) (b, a) = [(b[q := False], a), (b[q := True], if b ! q then - a else a)]"
| "gate_term (CX c t) (b, a) = [(if b ! c then flip t b else b, a)]"
| "gate_term Barrier (b, a) = [(b, a)]"
| "gate_term (Measure q c) (b, a) = [(b, a)]"

text \<open>The amplitude of a basis state in a sum, and the sum with like terms collected.\<close>

definition amplitude :: "qstate \<Rightarrow> bool list \<Rightarrow> int" where
  "amplitude s b = sum_list (map snd (filter (\<lambda>t. fst t = b) s))"

definition collect :: "qstate \<Rightarrow> qstate" where
  "collect s =
     filter (\<lambda>t. snd t \<noteq> 0) (map (\<lambda>b. (b, amplitude s b)) (remdups (map fst s)))"

definition apply_gate :: "gate \<Rightarrow> qstate \<Rightarrow> qstate" where
  "apply_gate g s = collect (concat (map (gate_term g) s))"

text \<open>The part of a state in which qubit \<open>q\<close> has the value \<open>v\<close>.\<close>

definition project :: "nat \<Rightarrow> bool \<Rightarrow> qstate \<Rightarrow> qstate" where
  "project q v s = filter (\<lambda>t. fst t ! q = v) s"

text \<open>
  One operation on a configuration (quantum state, classical register): a gate has one
  successor, a measurement one for each value that can be observed.
\<close>

fun step :: "gate \<Rightarrow> qstate \<times> bool list \<Rightarrow> (qstate \<times> bool list) list" where
  "step (Measure q c) (s, cl) =
     map (\<lambda>v. (project q v s, cl[c := v]))
       (filter (\<lambda>v. project q v s \<noteq> []) [False, True])"
| "step g (s, cl) = [(apply_gate g s, cl)]"

definition run_gates ::
  "gate list \<Rightarrow> (qstate \<times> bool list) list \<Rightarrow> (qstate \<times> bool list) list" where
  "run_gates gs cfgs = foldl (\<lambda>cs g. concat (map (step g) cs)) cfgs gs"

definition initial :: "nat \<Rightarrow> nat \<Rightarrow> qstate \<times> bool list" where
  "initial n m = ([(replicate n False, 1)], replicate m False)"

text \<open>The memory string of a classical register: classical bit 0 is the last character.\<close>

definition memory :: "bool list \<Rightarrow> string" where
  "memory cl = map (\<lambda>v. if v then CHR ''1'' else CHR ''0'') (rev cl)"

text \<open>The memory strings one shot of a circuit can give on an ideal backend.\<close>

definition outcomes :: "circuit \<Rightarrow> string list" where
  "outcomes qc =
     remdups (map (\<lambda>cfg. memory (snd cfg))
       (run_gates (data qc) [initial (num_qubits qc) (num_clbits qc)]))"

text \<open>A backend is ideal when each shot returns one of the possible memory strings.\<close>

definition ideal :: "simulator \<Rightarrow> bool" where
  "ideal sim = (\<forall>k qc. outcomes qc \<noteq> [] \<longrightarrow> sim k qc \<in> set (outcomes qc))"

text \<open>
  An ideal backend that returns the string \<open>prefer k\<close> in iteration \<open>k\<close> whenever that is
  a possible outcome, and the first possible outcome otherwise.
\<close>

definition ideal_choice :: "(nat \<Rightarrow> string) \<Rightarrow> simulator" where
  "ideal_choice prefer k qc =
     (if prefer k \<in> set (outcomes qc) then prefer k
      else (case outcomes qc of [] \<Rightarrow> prefer k | x # xs \<Rightarrow> x))"

text \<open>The quantum state of a circuit without measurements, from the all-zero state.\<close>

definition final_state :: "nat \<Rightarrow> gate list \<Rightarrow> qstate" where
  "final_state n gs = foldl (\<lambda>s g. apply_gate g s) [(replicate n False, 1)] gs"

section \<open>Closed forms of the circuits\<close>

text \<open>
  The circuits and gate sequences that the encoders and decoders build, written out as
  gate lists; the lemmas \<open>encode_qubit_value\<close>, \<open>data_measure_basis\<close>,
  \<open>encode_block_value\<close> and \<open>data_decode_gates\<close> below show that they are what the
  functions compute. \<open>expected_memory\<close> is the memory string of a block that is decoded
  with the pairing it was encoded with.
\<close>

definition bb84_circuit :: "int \<Rightarrow> int \<Rightarrow> circuit" where
  "bb84_circuit b basis =
     \<lparr>num_qubits = 1, num_clbits = 1,
      data = (if basis = 0 then (if b = 0 then [] else [X 0])
              else (if b = 0 then [H 0] else [X 0, H 0])) @ [Barrier]\<rparr>"

definition measure_suffix :: "int \<Rightarrow> gate list" where
  "measure_suffix basis =
     (if basis = 0 then [Measure 0 0] else if basis = 1 then [H 0, Measure 0 0] else [])"

definition block_gates :: "(nat \<times> nat) \<times> (nat \<times> nat) \<Rightarrow> int \<Rightarrow> int \<Rightarrow> gate list" where
  "block_gates pr b0 b1 =
     (if b0 = 0 \<and> b1 = 0 then [X (fst (snd pr))]
      else if b0 = 0 \<and> b1 = 1 then [X (fst (fst pr))]
      else if b0 = 1 \<and> b1 = 0 then [Z (snd (fst pr)), Z (fst (snd pr)), X (snd (snd pr))]
      else if b0 = 1 \<and> b1 = 1 then [Z (fst (fst pr)), X (snd (fst pr)), Z (snd (snd pr))]
      else [])"

definition bell_prep :: "(nat \<times> nat) \<times> (nat \<times> nat) \<Rightarrow> gate list" where
  "bell_prep pr = [H (fst (fst pr)), CX (fst (fst pr)) (snd (fst pr)),
                   H (fst (snd pr)), CX (fst (snd pr)) (snd (snd pr)), Barrier]"

definition block_circuit :: "int \<Rightarrow> int \<Rightarrow> int \<Rightarrow> circuit" where
  "block_circuit p b0 b1 =
     \<lparr>num_qubits = 4, num_clbits = 4,
      data = bell_prep (pairing p) @ block_gates (pairing p) b0 b1 @ [Barrier]\<rparr>"

definition decode_suffix :: "int \<Rightarrow> gate list" where
  "decode_suffix p =
     (let pr = pairing p in
      [CX (fst (fst pr)) (snd (fst pr)), H (fst (fst pr)),
       CX (fst (snd pr)) (snd (snd pr)), H (fst (snd pr)),
       Measure (fst (fst pr)) 3, Measure (snd (fst pr)) 2,
       Measure (fst (snd pr)) 1, Measure (snd (snd pr)) 0])"

definition expected_memory :: "int \<Rightarrow> int \<Rightarrow> string" where
  "expected_memory b0 b1 =
     (if b0 = 0 then (if b1 = 0 then ''0001'' else ''0100'')
      else (if b1 = 0 then ''1011'' else ''1110''))"

section \<open>Notions of the specification\<close>

text \<open>The positions below \<open>n\<close> at which two choice sequences agree, in increasing order.\<close>

definition kept :: "nat \<Rightarrow> int list \<Rightarrow> int list \<Rightarrow> nat list" where
  "kept n a b = filter (\<lambda>i. a ! i = b ! i) [0..<n]"

text \<open>The two bit positions of each block of a list of blocks.\<close>

definition block_positions :: "nat list \<Rightarrow> nat list" where
  "block_positions ks = concat (map (\<lambda>i. [2 * i, 2 * i + 1]) ks)"

text \<open>
  The error rate in the words of the specification: the count of index positions at
  which the kept receiver bit differs from the kept reference bit, divided by the count
  of kept positions.
\<close>

definition mismatches :: "int list \<Rightarrow> int list \<Rightarrow> nat" where
  "mismatches xs ys = length (filter (\<lambda>i. xs ! i \<noteq> ys ! i) [0..<length xs])"

definition spec_QBER :: "int list \<Rightarrow> int list \<Rightarrow> rat" where
  "spec_QBER xs ys = of_nat (mismatches xs ys) / of_nat (length xs)"

text \<open>Block \<open>i\<close> (positions \<open>2i\<close> and \<open>2i+1\<close>) is the same in both sequences.\<close>

definition same_block :: "int list \<Rightarrow> int list \<Rightarrow> nat \<Rightarrow> bool" where
  "same_block xs ys i = (xs ! (2 * i) = ys ! (2 * i) \<and> xs ! (2 * i + 1) = ys ! (2 * i + 1))"

definition equal_blocks :: "int list \<Rightarrow> int list \<Rightarrow> nat" where
  "equal_blocks xs ys = length (filter (same_block xs ys) [0..<length xs div 2])"

definition unequal_blocks :: "int list \<Rightarrow> int list \<Rightarrow> nat" where
  "unequal_blocks xs ys = length (filter (\<lambda>i. \<not> same_block xs ys i) [0..<length xs div 2])"

text \<open>A call returns a value that Python's \<open>==\<close> equates with \<open>v\<close>.\<close>

definition returns_eq :: "error + pyval \<Rightarrow> pyval \<Rightarrow> bool" where
  "returns_eq r v = (case r of Inl e \<Rightarrow> False | Inr q \<Rightarrow> py_eq q v)"

text \<open>All strings of \<open>n\<close> characters 0 and 1.\<close>

primrec bit_strings :: "nat \<Rightarrow> string list" where
  "bit_strings 0 = [Nil]"
| "bit_strings (Suc n) =
     map ((#) CHR ''0'') (bit_strings n) @ map ((#) CHR ''1'') (bit_strings n)"

text \<open>All basis states of \<open>n\<close> qubits.\<close>

primrec basis_states :: "nat \<Rightarrow> bool list list" where
  "basis_states 0 = [Nil]"
| "basis_states (Suc n) = map ((#) False) (basis_states n) @ map ((#) True) (basis_states n)"

text \<open>
  The four Bell states of a qubit pair \<open>(a, b)\<close> in their standard definition, as
  amplitudes of the values of \<open>a\<close> and \<open>b\<close>:
  \<open>\<Phi>+ = |00> + |11>\<close>, \<open>\<Phi>- = |00> - |11>\<close>, \<open>\<Psi>+ = |01> + |10>\<close>, \<open>\<Psi>- = |01> - |10>\<close>.
\<close>

datatype bell = PhiPlus | PhiMinus | PsiPlus | PsiMinus

fun bell_amp :: "bell \<Rightarrow> bool \<Rightarrow> bool \<Rightarrow> int" where
  "bell_amp PhiPlus a b = (if a = b then 1 else 0)"
| "bell_amp PhiMinus a b = (if a = b then (if a then - 1 else 1) else 0)"
| "bell_amp PsiPlus a b = (if a \<noteq> b then 1 else 0)"
| "bell_amp PsiMinus a b = (if a \<noteq> b then (if a then - 1 else 1) else 0)"

text \<open>
  A 4-qubit state is, up to the global sign, the product of Bell state \<open>s1\<close> on the
  qubits \<open>pair1\<close> and Bell state \<open>s2\<close> on the qubits \<open>pair2\<close>.
\<close>

definition bell_pairs ::
  "qstate \<Rightarrow> (nat \<times> nat) \<times> (nat \<times> nat) \<Rightarrow> bell \<times> bell \<Rightarrow> bool" where
  "bell_pairs s pairs states =
     list_ex (\<lambda>c. list_all (\<lambda>b. amplitude s b =
                c * bell_amp (fst states) (b ! fst (fst pairs)) (b ! snd (fst pairs))
                  * bell_amp (snd states) (b ! fst (snd pairs)) (b ! snd (snd pairs)))
              (basis_states 4)) [1, - 1]"

text \<open>The Bell states of the two pairs for a block value, in the words of the specification.\<close>

definition spec_states :: "int \<Rightarrow> int \<Rightarrow> bell \<times> bell" where
  "spec_states b0 b1 =
     (if b0 = 0 \<and> b1 = 0 then (PhiPlus, PhiMinus)
      else if b0 = 0 \<and> b1 = 1 then (PhiMinus, PhiPlus)
      else if b0 = 1 \<and> b1 = 0 then (PsiPlus, PsiMinus)
      else (PsiMinus, PsiPlus))"

text \<open>The same table with \<open>\<Phi>-\<close> and \<open>\<Psi>+\<close> exchanged.\<close>

definition code_states :: "int \<Rightarrow> int \<Rightarrow> bell \<times> bell" where
  "code_states b0 b1 =
     (if b0 = 0 \<and> b1 = 0 then (PhiPlus, PsiPlus)
      else if b0 = 0 \<and> b1 = 1 then (PsiPlus, PhiPlus)
      else if b0 = 1 \<and> b1 = 0 then (PhiMinus, PsiMinus)
      else (PsiMinus, PhiMinus))"

text \<open>The gates that flip a bit (X) or a phase (Z).\<close>

fun is_pauli :: "gate \<Rightarrow> bool" where
  "is_pauli (X q) = True"
| "is_pauli (Z q) = True"
| "is_pauli g = False"

text \<open>
  Draws of single trials used as concrete instances: a BB84 trial in which Alice and Bob
  both choose the Z basis and Eve the X basis, and an entanglement trial in which Alice
  and Bob choose pairing 1 and Eve pairing 0; the backend returns a 1 wherever it can.
\<close>

definition always_one :: "nat \<Rightarrow> string" where
  "always_one k = ''1''"

definition demo_draw :: bb84_draw where
  "demo_draw = \<lparr>alice_bits = [0], alice_bases = [0], eve_bases = [1], bob_bases = [0],
                eve_sim = ideal_choice always_one, bob_sim = ideal_choice always_one\<rparr>"

definition demo_ent_draw :: ent_draw where
  "demo_ent_draw = \<lparr>d_aliceBits = [0, 1], d_alicePairs = [1], d_evePairs = [0], d_bobPairs = [1],
                    d_eveSim = ideal_choice always_one, d_bobSim = ideal_choice always_one\<rparr>"




section \<open>Basic facts\<close>

lemma bindE_Inr [simp]: "bindE (Inr v) f = f v"
  by (simp add: bindE_def)

lemma bindE_Inl [simp]: "bindE (Inl e) f = Inl e"
  by (simp add: bindE_def)

lemma for_range_append:
  "for_range (xs @ ys) body s = bindE (for_range xs body s) (for_range ys body)"
  by (induction xs arbitrary: s) (auto split: sum.splits)

lemma for_range_single: "for_range [k] body = body k"
  by (rule ext) (simp split: sum.splits)

lemma for_range_Suc:
  "for_range [0..<Suc k] body s = bindE (for_range [0..<k] body s) (body k)"
  by (simp add: for_range_append for_range_single)

lemma get_Inr [simp]: "i < length xs \<Longrightarrow> get xs i = Inr (xs ! i)"
  by (simp add: get_def)

lemma get_Inl [simp]: "\<not> i < length xs \<Longrightarrow> get xs i = Inl IndexError"
  by (simp add: get_def)

section \<open>Rounding to a double\<close>

text \<open>
  \<open>exponent2\<close> is the binary exponent, so that the significand that \<open>rnd_double\<close>
  rounds has 53 bits; a double is its own rounding, in particular every count and every
  half count below \<open>2 ^ 53\<close>; and only 0 is rounded to 0.
\<close>

lemma rnd_double_0 [simp]: "rnd_double 0 = 0"
  by (simp add: rnd_double_def)

lemma exponent2_lower:
  assumes "0 < x"
  shows "2 powi (exponent2 x) \<le> x"
proof -
  obtain p q where pq: "quotient_of x = (p, q)" by (cases "quotient_of x")
  then have q: "0 < q" and x: "x = of_int p / of_int q"
    using quotient_of_denom_pos [OF pq] quotient_of_div [OF pq] by simp_all
  have p: "0 < p" using assms q x by (simp add: zero_less_divide_iff)
  let ?d = "bitlen p - bitlen q"
  show ?thesis
  proof (cases "2 powi ?d \<le> x")
    case True
    then show ?thesis by (simp add: exponent2_def pq)
  next
    case False
    have bp: "bitlen p \<ge> 1" and bq: "bitlen q \<ge> 1"
      using p q bitlen_eq_zero_iff [of p] bitlen_eq_zero_iff [of q] bitlen_nonneg [of p] bitlen_nonneg [of q]
      by linarith+
    have lo: "(2::rat) ^ nat (bitlen p - 1) \<le> of_int p"
      using bitlen_bounds [OF p] by (metis of_int_le_iff of_int_numeral of_int_power)
    have hi: "of_int q \<le> (2::rat) ^ nat (bitlen q)"
      using bitlen_bounds [OF q] by (metis less_imp_le of_int_le_iff of_int_numeral of_int_power)
    have "?d - 1 = (bitlen p - 1) - bitlen q" by simp
    then have "(2::rat) powi (?d - 1) = 2 powi (bitlen p - 1) / 2 powi (bitlen q)"
      by (simp only: power_int_diff [of "2::rat", simplified])
    also have "\<dots> = 2 ^ nat (bitlen p - 1) / 2 ^ nat (bitlen q)"
      using bp bq by (simp add: power_int_nonneg_exp)
    also have "\<dots> \<le> of_int p / of_int q"
      using lo hi q p by (intro frac_le) auto
    finally have "(2::rat) powi (?d - 1) \<le> x" using x by simp
    then show ?thesis using False by (simp add: exponent2_def pq)
  qed
qed

lemma round_half_even_pos:
  assumes "1 \<le> m"
  shows "0 < round_half_even m"
proof -
  from assms have "1 \<le> \<lfloor>m\<rfloor>" by simp
  then show ?thesis by (auto simp: round_half_even_def Let_def)
qed

lemma rnd_double_eq_0_iff [simp]: "rnd_double x = 0 \<longleftrightarrow> x = 0"
proof
  assume r: "rnd_double x = 0"
  show "x = 0"
  proof (rule ccontr)
    assume nz: "x \<noteq> 0"
    let ?a = "\<bar>x\<bar>"
    let ?e = "exponent2 ?a - 52"
    have a: "0 < ?a" using nz by simp
    have "(2::rat) powi ?e \<le> 2 powi exponent2 ?a"
      by (intro power_int_increasing) auto
    also have "\<dots> \<le> ?a" using exponent2_lower [OF a] .
    finally have "1 \<le> ?a / 2 powi ?e"
      by (simp add: le_divide_eq)
    then have "0 < round_half_even (?a / 2 powi ?e)" by (rule round_half_even_pos)
    then have "rnd_double x \<noteq> 0" using nz by (simp add: rnd_double_def Let_def sgn_eq_0_iff)
    then show False using r by simp
  qed
next
  assume "x = 0" then show "rnd_double x = 0" by simp
qed


lemma exponent2_upper:
  assumes "0 < x"
  shows "x < 2 powi (exponent2 x + 1)"
proof -
  obtain p q where pq: "quotient_of x = (p, q)" by (cases "quotient_of x")
  then have q: "0 < q" and x: "x = of_int p / of_int q"
    using quotient_of_denom_pos [OF pq] quotient_of_div [OF pq] by simp_all
  have p: "0 < p" using assms q x by (simp add: zero_less_divide_iff)
  let ?d = "bitlen p - bitlen q"
  show ?thesis
  proof (cases "2 powi ?d \<le> x")
    case False
    then show ?thesis by (simp add: exponent2_def pq)
  next
    case True
    have bp: "bitlen p \<ge> 1" and bq: "bitlen q \<ge> 1"
      using p q bitlen_eq_zero_iff [of p] bitlen_eq_zero_iff [of q] bitlen_nonneg [of p] bitlen_nonneg [of q]
      by linarith+
    have hi: "of_int p < (2::rat) ^ nat (bitlen p)"
      using bitlen_bounds [OF p] by (metis of_int_less_iff of_int_numeral of_int_power)
    have lo: "(2::rat) ^ nat (bitlen q - 1) \<le> of_int q"
      using bitlen_bounds [OF q] by (metis of_int_le_iff of_int_numeral of_int_power)
    have "x = of_int p / of_int q" by (rule x)
    also have "\<dots> < 2 ^ nat (bitlen p) / 2 ^ nat (bitlen q - 1)"
      using lo hi q p by (intro frac_less) auto
    also have "\<dots> = 2 powi (bitlen p) / 2 powi (bitlen q - 1)"
      using bp bq by (simp add: power_int_nonneg_exp)
    also have "\<dots> = 2 powi (?d + 1)"
    proof -
      have "?d + 1 = bitlen p - (bitlen q - 1)" by simp
      then show ?thesis by (simp only: power_int_diff [of "2::rat", simplified])
    qed
    finally show ?thesis using True by (simp add: exponent2_def pq)
  qed
qed

lemma round_half_even_of_int [simp]: "round_half_even (of_int m) = m"
  by (simp add: round_half_even_def)

lemma rnd_double_exact:
  assumes "0 < x" "x / 2 powi (exponent2 x - 52) = of_int m"
  shows "rnd_double x = x"
proof -
  have "rnd_double x = of_int m * 2 powi (exponent2 x - 52)"
    using assms by (simp add: rnd_double_def Let_def)
  also have "\<dots> = x" using assms(2) [symmetric] by simp
  finally show ?thesis .
qed

lemma exponent2_less:
  assumes "0 < x" "x < 2 powi k"
  shows "exponent2 x < k"
proof (rule ccontr)
  assume "\<not> exponent2 x < k"
  then have "(2::rat) powi k \<le> 2 powi exponent2 x"
    by (intro power_int_increasing) auto
  then show False using exponent2_lower [OF assms(1)] assms(2) by simp
qed

lemma powi_neg: "(2::rat) powi (- int k) = 1 / 2 ^ k"
  by (simp only: power_int_minus power_int_of_nat inverse_eq_divide)

lemma rnd_double_half:
  assumes "n < 2 ^ 53"
  shows "rnd_double (of_nat n / 2) = of_nat n / 2"
proof (cases "n = 0")
  case True
  then show ?thesis by simp
next
  case False
  let ?x = "of_nat n / 2 :: rat"
  define j where "j = nat (51 - exponent2 ?x)"
  have pos: "0 < ?x" using False by simp
  have "(of_nat n :: rat) < 2 ^ 53" using assms by (metis of_nat_less_iff of_nat_numeral of_nat_power)
  then have "?x < 2 powi 52" by simp
  then have "exponent2 ?x < 52" using exponent2_less [OF pos] by blast
  then have j: "exponent2 ?x - 52 = - int (Suc j)" by (simp add: j_def)
  have "?x / 2 powi (exponent2 ?x - 52) = of_int (int n * 2 ^ j)"
    unfolding j powi_neg by simp
  then show ?thesis by (rule rnd_double_exact [OF pos])
qed

lemma rnd_double_of_nat:
  assumes "n < 2 ^ 53"
  shows "rnd_double (of_nat n) = of_nat n"
proof (cases "n = 0")
  case True
  then show ?thesis by simp
next
  case False
  let ?x = "of_nat n :: rat"
  define j where "j = nat (52 - exponent2 ?x)"
  have pos: "0 < ?x" using False by simp
  have "?x < 2 ^ 53" using assms by (metis of_nat_less_iff of_nat_numeral of_nat_power)
  then have "?x < 2 powi 53" by simp
  then have "exponent2 ?x < 53" using exponent2_less [OF pos] by blast
  then have j: "exponent2 ?x - 52 = - int j" by (simp add: j_def)
  have "?x / 2 powi (exponent2 ?x - 52) = of_int (int n * 2 ^ j)"
    unfolding j powi_neg by simp
  then show ?thesis by (rule rnd_double_exact [OF pos])
qed

lemma rnd_double_third: "rnd_double (1 / 3) = 6004799503160661 / 18014398509481984"
  by code_simp

lemma rnd_double_two_thirds: "rnd_double (2 / 3) = 6004799503160661 / 9007199254740992"
  by code_simp

lemma rnd_double_after_third:
  "rnd_double (12009599006321323 / 18014398509481984) = 6004799503160662 / 9007199254740992"
  by code_simp

lemma rnd_double_1 [simp]: "rnd_double 1 = 1"
  by code_simp

section \<open>The error estimators\<close>

lemma qber_loop:
  "k \<le> length xs \<Longrightarrow> k \<le> length ys \<Longrightarrow>
   for_range [0..<k]
     (\<lambda>i QBER. bindE (get xs i) (\<lambda>r. bindE (get ys i)
        (\<lambda>a. Inr (if r \<noteq> a then QBER + 1 else QBER))))
     (c::int)
   = Inr (c + int (length (filter (\<lambda>i. xs ! i \<noteq> ys ! i) [0..<k])))"
proof (induction k)
  case 0
  show ?case by simp
next
  case (Suc k)
  then show ?case unfolding for_range_Suc by simp
qed

lemma measureQBER_value:
  assumes "xs \<noteq> []" "length xs = length ys"
  shows "measureQBER xs ys = Inr (PFloat (spec_QBER xs ys))"
proof -
  have loop: "for_range [0..<length xs]
     (\<lambda>i QBER. bindE (get xs i) (\<lambda>r. bindE (get ys i)
        (\<lambda>a. Inr (if r \<noteq> a then QBER + 1 else QBER))))
     (0::int) = Inr (int (mismatches xs ys))"
    using qber_loop [of "length xs" xs ys 0] assms(2) by (simp add: mismatches_def)
  have "length xs \<noteq> 0" using assms(1) by simp
  then show ?thesis
    unfolding measureQBER_def spec_QBER_def loop by simp
qed

lemma block_equal_value:
  "2 * i + 1 < length xs \<Longrightarrow> 2 * i + 1 < length ys \<Longrightarrow>
   block_equal xs ys i = Inr (same_block xs ys i)"
  by (simp add: block_equal_def same_block_def)

lemma block_loop:
  "2 * k \<le> length xs \<Longrightarrow> 2 * k \<le> length ys \<Longrightarrow>
   for_range [0..<k]
     (\<lambda>i c. bindE (block_equal xs ys i) (\<lambda>eq. Inr (if eq then c + 1 else c))) (c0::int)
   = Inr (c0 + int (length (filter (same_block xs ys) [0..<k])))"
proof (induction k)
  case 0
  show ?case by simp
next
  case (Suc k)
  then show ?case unfolding for_range_Suc by (simp add: block_equal_value)
qed

lemma measureQBER_ent_value:
  assumes "xs \<noteq> []" "length xs = length ys"
  shows "measureQBER_ent xs ys =
           Inr (PFloat (1 - rnd_double (rnd_double (of_nat (equal_blocks xs ys)) /
                                        rnd_double (of_nat (length xs) / 2))))"
proof -
  have loop: "for_range [0..<length xs div 2]
     (\<lambda>i c. bindE (block_equal xs ys i) (\<lambda>eq. Inr (if eq then c + 1 else c))) (0::int)
     = Inr (int (equal_blocks xs ys))"
    using block_loop [of "length xs div 2" xs ys 0] assms(2) by (simp add: equal_blocks_def)
  have "length xs \<noteq> 0" using assms(1) by simp
  then show ?thesis
    unfolding measureQBER_ent_def loop by simp
qed

lemma blocks_split: "equal_blocks xs ys + unequal_blocks xs ys = length xs div 2"
  unfolding equal_blocks_def unequal_blocks_def
  using sum_length_filter_compl [of "same_block xs ys" "[0..<length xs div 2]"] by simp

lemma equal_blocks_le: "equal_blocks xs ys \<le> length xs div 2"
  using blocks_split [of xs ys] by simp

lemma measureQBER_ent_small:
  assumes "xs \<noteq> []" "length xs = length ys" "length xs < 2 ^ 53"
  shows "measureQBER_ent xs ys =
           Inr (PFloat (1 - rnd_double (of_nat (equal_blocks xs ys) / (of_nat (length xs) / 2))))"
proof -
  have "equal_blocks xs ys < 2 ^ 53"
    using equal_blocks_le [of xs ys] assms(3) by simp
  then show ?thesis
    using measureQBER_ent_value [OF assms(1,2)] rnd_double_half [OF assms(3)]
      rnd_double_of_nat [of "equal_blocks xs ys"] by simp
qed

text \<open>
  C1 (as amended). For equal-length, non-empty sifted sequences the BB84 estimator
  returns the count of positions at which the two sequences differ, divided by the count
  of kept positions (one division of two integers, rounded once). The entanglement
  estimator compares whole 2-bit blocks and works in two float operations: it divides
  the count of blocks equal in both bits by half the length, and returns 1 minus the
  double that this division returned; for a length below \<open>2 ^ 53\<close> the count and half
  the length are doubles, and the quotient is the only value rounded before the
  subtraction. The double returned is the rounding of that difference.
\<close>

theorem C1_qber_value:
  "(xs \<noteq> [] \<and> length xs = length ys \<longrightarrow>
      measureQBER xs ys = Inr (PFloat (spec_QBER xs ys))) \<and>
   (xs \<noteq> [] \<and> length xs = length ys \<longrightarrow>
      measureQBER_ent xs ys =
        Inr (PFloat (1 - rnd_double (rnd_double (of_nat (equal_blocks xs ys)) /
                                     rnd_double (of_nat (length xs) / 2))))) \<and>
   (xs \<noteq> [] \<and> length xs = length ys \<and> length xs < 2 ^ 53 \<longrightarrow>
      measureQBER_ent xs ys =
        Inr (PFloat (1 - rnd_double (of_nat (equal_blocks xs ys) / (of_nat (length xs) / 2))))) \<and>
   (xs \<noteq> [] \<and> length xs = length ys \<longrightarrow>
      (\<exists>v. measureQBER xs ys = Inr v \<and> float_val v = Some (rnd_double (spec_QBER xs ys)))) \<and>
   (xs \<noteq> [] \<and> length xs = length ys \<and> length xs < 2 ^ 53 \<longrightarrow>
      (\<exists>v. measureQBER_ent xs ys = Inr v \<and>
           float_val v =
             Some (rnd_double
               (1 - rnd_double (of_nat (equal_blocks xs ys) / (of_nat (length xs) / 2))))))"
  using measureQBER_value [of xs ys] measureQBER_ent_value [of xs ys]
    measureQBER_ent_small [of xs ys]
  by simp

theorem C1_qber_value_witness:
  "measureQBER [0, 1, 1, 0] [0, 0, 1, 0] = Inr (PFloat (1 / 4)) \<and>
   measureQBER_ent [0, 0, 1, 1, 1, 1] [0, 0, 0, 0, 0, 0] =
     Inr (PFloat (12009599006321323 / 18014398509481984)) \<and>
   (\<exists>v. measureQBER_ent [0, 0, 1, 1, 1, 1] [0, 0, 0, 0, 0, 0] = Inr v \<and>
        float_val v = Some (6004799503160662 / 9007199254740992))"
proof -
  have e: "equal_blocks [0, 0, 1, 1, 1, 1] [0, 0, 0, 0, 0, 0] = 1"
    by code_simp
  have 1: "measureQBER [0, 1, 1, 0] [0, 0, 1, 0] = Inr (PFloat (1 / 4))"
    using C1_qber_value [of "[0, 1, 1, 0]" "[0, 0, 1, 0]"]
    by (simp add: spec_QBER_def mismatches_def)
  have r: "rnd_double 3 = 3"
    by code_simp
  have 2: "measureQBER_ent [0, 0, 1, 1, 1, 1] [0, 0, 0, 0, 0, 0] =
             Inr (PFloat (12009599006321323 / 18014398509481984))"
    using C1_qber_value [of "[0, 0, 1, 1, 1, 1]" "[0, 0, 0, 0, 0, 0]"]
    by (simp add: e r rnd_double_third)
  have 3: "\<exists>v. measureQBER_ent [0, 0, 1, 1, 1, 1] [0, 0, 0, 0, 0, 0] = Inr v \<and>
             float_val v = Some (6004799503160662 / 9007199254740992)"
    using C1_qber_value [of "[0, 0, 1, 1, 1, 1]" "[0, 0, 0, 0, 0, 0]"]
    by (simp add: e r rnd_double_third rnd_double_after_third)
  show ?thesis by (intro conjI 1 2 3)
qed

text \<open>
  C1 as stated fails for the entanglement estimator: on the kept results \<open>[0, 1]\<close> and
  reference bits \<open>[0, 0]\<close> one position of two differs, and the estimator returns 1.
\<close>

theorem C1_counterexample:
  "measureQBER_ent [0, 1] [0, 0] = Inr (PFloat 1) \<and> spec_QBER [0, 1] [0, 0] = 1 / 2"
  by (simp add: measureQBER_ent_def block_equal_def get_def spec_QBER_def mismatches_def)

text \<open>
  Nor is the value of the entanglement estimator the ratio of the blocks that differ
  to the kept blocks. With one block of three equal, the estimator subtracts the double
  nearest to \<open>1 / 3\<close> from 1 and returns the double above the one nearest to \<open>2 / 3\<close>
  (0.6666666666666667 where \<open>2 / 3\<close> is 0.6666666666666666).
\<close>

lemma measureQBER_ent_not_ratio:
  "measureQBER_ent [0, 0, 1, 1, 1, 1] [0, 0, 0, 0, 0, 0] =
     Inr (PFloat (12009599006321323 / 18014398509481984)) \<and>
   rnd_double (12009599006321323 / 18014398509481984) = 6004799503160662 / 9007199254740992 \<and>
   unequal_blocks [0, 0, 1, 1, 1, 1] [0, 0, 0, 0, 0, 0] = 2 \<and>
   rnd_double (2 / 3) = 6004799503160661 / 9007199254740992"
proof -
  have e: "equal_blocks [0, 0, 1, 1, 1, 1] [0, 0, 0, 0, 0, 0] = 1"
    by code_simp
  have u: "unequal_blocks [0, 0, 1, 1, 1, 1] [0, 0, 0, 0, 0, 0] = 2"
    using blocks_split [of "[0, 0, 1, 1, 1, 1]" "[0, 0, 0, 0, 0, 0]"] e by simp
  have "measureQBER_ent [0, 0, 1, 1, 1, 1] [0, 0, 0, 0, 0, 0] =
          Inr (PFloat (12009599006321323 / 18014398509481984))"
    using measureQBER_ent_small [of "[0, 0, 1, 1, 1, 1]" "[0, 0, 0, 0, 0, 0]"]
    by (simp add: e rnd_double_third)
  then show ?thesis
    using u rnd_double_after_third rnd_double_two_thirds by simp
qed

lemma measureQBER_null: "measureQBER xs ys = Inr (PStr ''null'') \<longleftrightarrow> xs = []"
proof (cases "xs = []")
  case True
  then show ?thesis by (simp add: measureQBER_def)
next
  case False
  then have "measureQBER xs ys \<noteq> Inr (PStr ''null'')"
    by (auto simp: measureQBER_def bindE_def split: sum.splits)
  with False show ?thesis by simp
qed

lemma measureQBER_ent_one: "measureQBER_ent xs ys = Inr (PInt 1) \<longleftrightarrow> xs = []"
proof (cases "xs = []")
  case True
  then show ?thesis by (simp add: measureQBER_ent_def)
next
  case False
  then have "measureQBER_ent xs ys \<noteq> Inr (PInt 1)"
    by (auto simp: measureQBER_ent_def bindE_def split: sum.splits)
  with False show ?thesis by simp
qed

lemma measureQBER_ent_numeric_one:
  assumes "xs \<noteq> []" "length xs = length ys"
  shows "returns_eq (measureQBER_ent xs ys) (PInt 1) \<longleftrightarrow> equal_blocks xs ys = 0"
proof -
  have pos: "of_nat (length xs) / 2 \<noteq> (0::rat)" using assms(1) by simp
  have "returns_eq (measureQBER_ent xs ys) (PInt 1) \<longleftrightarrow>
        rnd_double (rnd_double (of_nat (equal_blocks xs ys)) /
                    rnd_double (of_nat (length xs) / 2)) = 0"
    unfolding measureQBER_ent_value [OF assms] by (simp add: returns_eq_def)
  also have "\<dots> \<longleftrightarrow> (of_nat (equal_blocks xs ys) :: rat) = 0"
    using pos by (simp only: rnd_double_eq_0_iff divide_eq_0_iff) simp
  finally show ?thesis by simp
qed

text \<open>
  C2 (as amended). The BB84 estimator returns the string \<open>"null"\<close> exactly when its
  sifted input is empty. The entanglement estimator returns the integer 1 when its
  sifted input is empty, and that integer object only then; the value 1 however is
  also returned, as the float 1.0 that \<open>==\<close> equates with 1, for a non-empty input in
  which no kept block is equal in both bits.
\<close>

theorem C2_sentinel:
  "(measureQBER xs ys = Inr (PStr ''null'') \<longleftrightarrow> xs = []) \<and>
   (xs = [] \<longrightarrow> measureQBER_ent xs ys = Inr (PInt 1)) \<and>
   (measureQBER_ent xs ys = Inr (PInt 1) \<longleftrightarrow> xs = []) \<and>
   (xs \<noteq> [] \<and> length xs = length ys \<longrightarrow>
      (returns_eq (measureQBER_ent xs ys) (PInt 1) \<longleftrightarrow> equal_blocks xs ys = 0))"
  using measureQBER_null measureQBER_ent_one measureQBER_ent_numeric_one by blast

theorem C2_sentinel_witness:
  "measureQBER [] [] = Inr (PStr ''null'') \<and> measureQBER_ent [] [] = Inr (PInt 1) \<and>
   returns_eq (measureQBER_ent [1, 0, 0, 1] [0, 0, 0, 0]) (PInt 1)"
  using C2_sentinel [of "[]" "[]"] C2_sentinel [of "[1, 0, 0, 1]" "[0, 0, 0, 0]"]
  by (simp add: equal_blocks_def same_block_def)

text \<open>
  C2 as stated fails for the entanglement estimator: on the non-empty input \<open>[1, 1]\<close>
  against \<open>[0, 0]\<close> it returns a QBER equal to 1.
\<close>

theorem C2_counterexample:
  "[1, 1] \<noteq> ([] :: int list) \<and> returns_eq (measureQBER_ent [1, 1] [0, 0]) (PInt 1)"
  by (simp add: measureQBER_ent_def block_equal_def get_def returns_eq_def)

section \<open>Sifting\<close>

lemma discardBits_value:
  "k \<le> length results \<Longrightarrow> k \<le> length aliceBits \<Longrightarrow> k \<le> length aliceBases \<Longrightarrow>
   k \<le> length bobBases \<Longrightarrow>
   discardBits k results aliceBits aliceBases bobBases =
     Inr (map ((!) results) (kept k aliceBases bobBases),
          map ((!) aliceBits) (kept k aliceBases bobBases))"
proof (induction k)
  case 0
  then show ?case by (simp add: discardBits_def kept_def)
next
  case (Suc k)
  then have IH: "discardBits k results aliceBits aliceBases bobBases =
     Inr (map ((!) results) (kept k aliceBases bobBases),
          map ((!) aliceBits) (kept k aliceBases bobBases))"
    by simp
  show ?case
    using Suc.prems IH unfolding discardBits_def for_range_Suc
    by (simp add: kept_def)
qed

lemma discardBits_ent_value:
  "2 * k \<le> length results \<Longrightarrow> 2 * k \<le> length aliceBits \<Longrightarrow> k \<le> length alicePairs \<Longrightarrow>
   k \<le> length bobPairs \<Longrightarrow>
   discardBits_ent k results aliceBits alicePairs bobPairs =
     Inr (map ((!) results) (block_positions (kept k alicePairs bobPairs)),
          map ((!) aliceBits) (block_positions (kept k alicePairs bobPairs)))"
proof (induction k)
  case 0
  then show ?case by (simp add: discardBits_ent_def kept_def block_positions_def)
next
  case (Suc k)
  then have IH: "discardBits_ent k results aliceBits alicePairs bobPairs =
     Inr (map ((!) results) (block_positions (kept k alicePairs bobPairs)),
          map ((!) aliceBits) (block_positions (kept k alicePairs bobPairs)))"
    by simp
  show ?case
    using Suc.prems IH unfolding discardBits_ent_def for_range_Suc
    by (simp add: kept_def block_positions_def)
qed

lemma length_kept: "length (kept n a b) \<le> n"
  unfolding kept_def using length_filter_le [of _ "[0..<n]"] by simp

lemma length_block_positions: "length (block_positions ks) = 2 * length ks"
  unfolding block_positions_def by (induction ks) auto

lemma set_kept: "set (kept n a b) = {i. i < n \<and> a ! i = b ! i}"
  by (auto simp: kept_def)

lemma sorted_kept: "sorted (kept n a b) \<and> distinct (kept n a b)"
  by (simp add: kept_def sorted_wrt_filter)

text \<open>
  C6. For inputs of the configured length, BB84 sifting returns the receiver results and
  the sender bits at the positions where the two basis sequences agree, and entanglement
  sifting returns both bits of the blocks where the two pairing sequences agree. The
  kept positions are exactly the agreeing ones, in increasing order; both outputs are
  read at the same positions, so they have equal length, at most the input length, and
  are index-aligned.
\<close>

theorem C6_sifting:
  "(n \<le> length results \<and> n \<le> length aliceBits \<and> n \<le> length aliceChoice \<and>
    n \<le> length bobChoice \<longrightarrow>
      discardBits n results aliceBits aliceChoice bobChoice =
        Inr (map ((!) results) (kept n aliceChoice bobChoice),
             map ((!) aliceBits) (kept n aliceChoice bobChoice))) \<and>
   (2 * n \<le> length results \<and> 2 * n \<le> length aliceBits \<and> n \<le> length aliceChoice \<and>
    n \<le> length bobChoice \<longrightarrow>
      discardBits_ent n results aliceBits aliceChoice bobChoice =
        Inr (map ((!) results) (block_positions (kept n aliceChoice bobChoice)),
             map ((!) aliceBits) (block_positions (kept n aliceChoice bobChoice)))) \<and>
   set (kept n aliceChoice bobChoice) = {i. i < n \<and> aliceChoice ! i = bobChoice ! i} \<and>
   sorted (kept n aliceChoice bobChoice) \<and> distinct (kept n aliceChoice bobChoice) \<and>
   length (kept n aliceChoice bobChoice) \<le> n \<and>
   length (block_positions (kept n aliceChoice bobChoice)) =
     2 * length (kept n aliceChoice bobChoice)"
  using discardBits_value discardBits_ent_value set_kept sorted_kept length_kept
    length_block_positions
  by simp

theorem C6_sifting_witness:
  "discardBits 3 [1, 0, 1] [1, 1, 0] [0, 1, 1] [0, 0, 1] = Inr ([1, 1], [1, 0]) \<and>
   discardBits_ent 2 [1, 0, 1, 1] [1, 1, 0, 1] [2, 1] [0, 1] = Inr ([1, 1], [0, 1])"
  using C6_sifting [of 3 "[1, 0, 1]" "[1, 1, 0]" "[0, 1, 1]" "[0, 0, 1]"]
    C6_sifting [of 2 "[1, 0, 1, 1]" "[1, 1, 0, 1]" "[2, 1]" "[0, 1]"]
  by (simp add: kept_def block_positions_def numeral_eq_Suc)

section \<open>Loops, encoders and decoders\<close>

lemma for_range_states:
  "(\<And>k. k < n \<Longrightarrow> body k (st k) = Inr (st (Suc k))) \<Longrightarrow>
   for_range [0..<n] body (st 0) = Inr (st n)"
proof (induction n)
  case 0
  show ?case by simp
next
  case (Suc n)
  then have "for_range [0..<n] body (st 0) = Inr (st n)" by simp
  then show ?case unfolding for_range_Suc using Suc.prems [of n] by simp
qed

lemma for_range_raises:
  assumes "m < n" and "\<And>k. k < m \<Longrightarrow> body k (st k) = Inr (st (Suc k))"
    and "body m (st m) = Inl e"
  shows "for_range [0..<n] body (st 0) = Inl e"
proof -
  have split: "[0..<n] = [0..<m] @ m # [Suc m..<n]"
    using assms(1) by (metis less_imp_le_nat upt_add_eq_append upt_conv_Cons le0 le_add_diff_inverse)
  have "for_range [0..<m] body (st 0) = Inr (st m)"
    using assms(2) by (rule for_range_states)
  then show ?thesis unfolding split for_range_append using assms(3) by simp
qed

lemma encode_qubit_value:
  "i < length bases \<Longrightarrow> i < length bits \<Longrightarrow>
   encode_qubit bits bases i = Inr (bb84_circuit (bits ! i) (bases ! i))"
  by (simp add: encode_qubit_def bb84_circuit_def QuantumCircuit_def append_gate_def)

lemma encode_qubit_raises:
  "\<not> (i < length bases \<and> i < length bits) \<Longrightarrow> encode_qubit bits bases i = Inl IndexError"
  by (cases "i < length bases") (auto simp: encode_qubit_def)

lemma encode_message_value:
  assumes "n \<le> length bits" "n \<le> length bases"
  shows "encode_message n bits bases = Inr (map (\<lambda>i. bb84_circuit (bits ! i) (bases ! i)) [0..<n])"
proof -
  let ?st = "\<lambda>k. map (\<lambda>i. bb84_circuit (bits ! i) (bases ! i)) [0..<k]"
  have "for_range [0..<n]
          (\<lambda>i message. bindE (encode_qubit bits bases i) (\<lambda>qc. Inr (message @ [qc]))) (?st 0)
        = Inr (?st n)"
    by (rule for_range_states [where st = ?st]) (use assms in \<open>simp add: encode_qubit_value\<close>)
  then show ?thesis by (simp add: encode_message_def)
qed

lemma encode_message_raises:
  assumes "\<not> (n \<le> length bits \<and> n \<le> length bases)"
  shows "encode_message n bits bases = Inl IndexError"
proof -
  let ?st = "\<lambda>k. map (\<lambda>i. bb84_circuit (bits ! i) (bases ! i)) [0..<k]"
  let ?m = "min (length bits) (length bases)"
  have "for_range [0..<n]
          (\<lambda>i message. bindE (encode_qubit bits bases i) (\<lambda>qc. Inr (message @ [qc]))) (?st 0)
        = Inl IndexError"
  proof (rule for_range_raises [where m = ?m and st = ?st])
    show "?m < n" using assms by auto
  next
    fix k assume "k < ?m"
    then show "bindE (encode_qubit bits bases k) (\<lambda>qc. Inr (?st k @ [qc])) = Inr (?st (Suc k))"
      by (simp add: encode_qubit_value)
  next
    show "bindE (encode_qubit bits bases ?m) (\<lambda>qc. Inr (?st ?m @ [qc])) = Inl IndexError"
      by (simp add: encode_qubit_raises)
  qed
  then show ?thesis by (simp add: encode_message_def)
qed

lemma data_measure_basis:
  "measure_basis basis qc = qc\<lparr>data := data qc @ measure_suffix basis\<rparr>"
  by (simp add: measure_basis_def measure_suffix_def append_gate_def Let_def)

lemma update_at_prefix:
  assumes "k < length m" "length xs = k"
  shows "(xs @ drop k m)[k := x] = (xs @ [x]) @ drop (Suc k) m"
proof -
  have "drop k m = m ! k # drop (Suc k) m" using assms(1) by (simp add: Cons_nth_drop_Suc)
  then show ?thesis using assms(2) by (simp add: list_update_append)
qed

lemma nth_at_prefix:
  assumes "k < length m" "length xs = k"
  shows "(xs @ drop k m) ! k = m ! k"
  using assms by (simp add: nth_append)

lemma measure_message_value:
  assumes "n \<le> length message" "n \<le> length bases"
    and "\<And>q. q < n \<Longrightarrow> py_int (sim q (measure_basis (bases ! q) (message ! q))) = Inr (v q)"
  shows "measure_message n sim message bases =
           Inr (map v [0..<n],
                map (\<lambda>q. measure_basis (bases ! q) (message ! q)) [0..<n] @ drop n message)"
proof -
  let ?mb = "\<lambda>q. measure_basis (bases ! q) (message ! q)"
  let ?st = "\<lambda>k. (map v [0..<k], map ?mb [0..<k] @ drop k message)"
  let ?body = "(\<lambda>q (measurements, message).
          bindE (get message q) (\<lambda>qc.
          bindE (get bases q) (\<lambda>basis.
            let qc = measure_basis basis qc;
                measuredBits = sim q qc
            in bindE (py_int measuredBits) (\<lambda>measured_bit.
                 Inr (measurements @ [measured_bit], message[q := qc])))))"
  have "for_range [0..<n] ?body (?st 0) = Inr (?st n)"
  proof (rule for_range_states [where st = ?st])
    fix k assume k: "k < n"
    then have km: "k < length message" and kb: "k < length bases" using assms(1,2) by auto
    have len: "length (map ?mb [0..<k]) = k" by simp
    show "?body k (?st k) = Inr (?st (Suc k))"
      using km kb assms(3) [OF k] nth_at_prefix [OF km len] update_at_prefix [OF km len]
      by simp
  qed
  then show ?thesis by (simp add: measure_message_def)
qed

lemma for_range_Suc_Inr:
  assumes "for_range [0..<Suc n] body s0 = Inr s'"
  obtains s1 where "for_range [0..<n] body s0 = Inr s1" "body n s1 = Inr s'"
  using assms unfolding for_range_Suc by (cases "for_range [0..<n] body s0") auto

lemma for_range_invariant:
  assumes "for_range [0..<n] body s0 = Inr s'" and "I 0 s0"
    and "\<And>k s t. k < n \<Longrightarrow> I k s \<Longrightarrow> body k s = Inr t \<Longrightarrow> I (Suc k) t"
  shows "I n s'"
  using assms
proof (induction n arbitrary: s')
  case 0
  then show ?case by simp
next
  case (Suc n)
  from Suc.prems(1) obtain s1 where s1: "for_range [0..<n] body s0 = Inr s1" "body n s1 = Inr s'"
    by (rule for_range_Suc_Inr)
  have "I n s1" using Suc.IH [OF s1(1) Suc.prems(2)] Suc.prems(3) by simp
  then show ?case using Suc.prems(3) [of n s1 s'] s1(2) by simp
qed

lemma for_range_error_kind:
  assumes "for_range xs body s = Inl e" and "\<And>i t e'. body i t = Inl e' \<Longrightarrow> e' = E"
  shows "e = E"
  using assms
proof (induction xs arbitrary: s)
  case Nil
  then show ?case by simp
next
  case (Cons i xs)
  show ?case
  proof (cases "body i s")
    case (Inl e')
    then show ?thesis using Cons.prems by simp
  next
    case (Inr t)
    then show ?thesis using Cons.prems Cons.IH [of t] by simp
  qed
qed

lemma measure_message_success:
  assumes "measure_message n sim message bases = Inr (ms, message')"
  shows "n \<le> length message \<and> n \<le> length bases \<and> length ms = n \<and>
         message' = map (\<lambda>q. measure_basis (bases ! q) (message ! q)) [0..<n] @ drop n message \<and>
         (\<forall>q<n. py_int (sim q (measure_basis (bases ! q) (message ! q))) = Inr (ms ! q))"
proof -
  let ?mb = "\<lambda>q. measure_basis (bases ! q) (message ! q)"
  let ?body = "(\<lambda>q (measurements, message).
          bindE (get message q) (\<lambda>qc.
          bindE (get bases q) (\<lambda>basis.
            let qc = measure_basis basis qc;
                measuredBits = sim q qc
            in bindE (py_int measuredBits) (\<lambda>measured_bit.
                 Inr (measurements @ [measured_bit], message[q := qc])))))"
  let ?I = "\<lambda>k s. k \<le> length message \<and> k \<le> length bases \<and> length (fst s) = k \<and>
         snd s = map ?mb [0..<k] @ drop k message \<and>
         (\<forall>q<k. py_int (sim q (?mb q)) = Inr (fst s ! q))"
  have run: "for_range [0..<n] ?body ([], message) = Inr (ms, message')"
    using assms by (simp add: measure_message_def)
  have "?I n (ms, message')"
  proof (rule for_range_invariant [where I = ?I, OF run])
    show "?I 0 ([], message)" by simp
  next
    fix k s t
    assume k: "k < n" and inv: "?I k s" and body: "?body k s = Inr t"
    obtain ms0 m0 where s: "s = (ms0, m0)" by (cases s)
    have m0: "m0 = map ?mb [0..<k] @ drop k message" and l0: "length ms0 = k"
      and v0: "\<forall>q<k. py_int (sim q (?mb q)) = Inr (ms0 ! q)"
      using inv s by auto
    have len: "length (map ?mb [0..<k]) = k" by simp
    have lm0: "length m0 = length message" using inv m0 by simp
    have km: "k < length message"
    proof (rule ccontr)
      assume "\<not> k < length message"
      then have "get m0 k = Inl IndexError" using lm0 by simp
      then show False using body s by simp
    qed
    have kb: "k < length bases"
    proof (rule ccontr)
      assume "\<not> k < length bases"
      then have "get bases k = Inl IndexError" by simp
      then show False using body s km lm0 by simp
    qed
    have qc: "m0 ! k = message ! k" using nth_at_prefix [OF km len] m0 by simp
    obtain v where v: "py_int (sim k (?mb k)) = Inr v"
      using body s km kb lm0 qc by (cases "py_int (sim k (?mb k))") (auto simp: Let_def)
    have t: "t = (ms0 @ [v], m0[k := ?mb k])"
      using body s km kb lm0 qc v by (simp add: Let_def)
    have upd: "m0[k := ?mb k] = map ?mb [0..<Suc k] @ drop (Suc k) message"
      using update_at_prefix [OF km len] m0 by simp
    have vals: "\<forall>q<Suc k. py_int (sim q (?mb q)) = Inr ((ms0 @ [v]) ! q)"
      using v0 v l0 by (auto simp: nth_append less_Suc_eq)
    show "?I (Suc k) t"
      using km kb l0 t upd vals by simp
  qed
  then show ?thesis by simp
qed

lemma py_int_error: "py_int s = Inl e \<Longrightarrow> e = ValueError"
  by (simp add: py_int_def split: if_splits)

lemma data_decode_gates:
  "decode_gates p qc = qc\<lparr>data := data qc @ decode_suffix p\<rparr>"
  by (simp add: decode_gates_def decode_suffix_def append_gate_def Let_def split: prod.splits)

lemma decodeMessage_value:
  assumes "n \<le> length message" "n \<le> length pairs"
  shows "decodeMessage n sim message pairs =
           Inr (concat (map (\<lambda>i. decode_lookup (sim i (decode_gates (pairs ! i) (message ! i)))) [0..<n]),
                map (\<lambda>i. decode_gates (pairs ! i) (message ! i)) [0..<n] @ drop n message)"
proof -
  let ?dg = "\<lambda>i. decode_gates (pairs ! i) (message ! i)"
  let ?st = "\<lambda>k. (concat (map (\<lambda>i. decode_lookup (sim i (?dg i))) [0..<k]),
                 map ?dg [0..<k] @ drop k message)"
  let ?body = "(\<lambda>i (results, message).
          bindE (get message i) (\<lambda>qc.
          bindE (get pairs i) (\<lambda>p.
            let qc = decode_gates p qc;
                measuredBits = sim i qc
            in Inr (results @ decode_lookup measuredBits, message[i := qc]))))"
  have "for_range [0..<n] ?body (?st 0) = Inr (?st n)"
  proof (rule for_range_states [where st = ?st])
    fix k assume k: "k < n"
    then have km: "k < length message" and kb: "k < length pairs" using assms by auto
    have len: "length (map ?dg [0..<k]) = k" by simp
    show "?body k (?st k) = Inr (?st (Suc k))"
      using km kb nth_at_prefix [OF km len] update_at_prefix [OF km len]
      by (simp add: Let_def)
  qed
  then show ?thesis by (simp add: decodeMessage_def)
qed

lemma decodeMessage_raises:
  assumes "\<not> (n \<le> length message \<and> n \<le> length pairs)"
  shows "decodeMessage n sim message pairs = Inl IndexError"
proof -
  let ?dg = "\<lambda>i. decode_gates (pairs ! i) (message ! i)"
  let ?st = "\<lambda>k. (concat (map (\<lambda>i. decode_lookup (sim i (?dg i))) [0..<k]),
                 map ?dg [0..<k] @ drop k message)"
  let ?body = "(\<lambda>i (results, message).
          bindE (get message i) (\<lambda>qc.
          bindE (get pairs i) (\<lambda>p.
            let qc = decode_gates p qc;
                measuredBits = sim i qc
            in Inr (results @ decode_lookup measuredBits, message[i := qc]))))"
  let ?m = "min (length message) (length pairs)"
  have "for_range [0..<n] ?body (?st 0) = Inl IndexError"
  proof (rule for_range_raises [where m = ?m and st = ?st])
    show "?m < n" using assms by auto
  next
    fix k assume k: "k < ?m"
    then have km: "k < length message" and kb: "k < length pairs" by auto
    have len: "length (map ?dg [0..<k]) = k" by simp
    show "?body k (?st k) = Inr (?st (Suc k))"
      using km kb nth_at_prefix [OF km len] update_at_prefix [OF km len]
      by (simp add: Let_def)
  next
    show "?body ?m (?st ?m) = Inl IndexError"
      by (cases "length message \<le> length pairs") (auto simp: min_def)
  qed
  then show ?thesis by (simp add: decodeMessage_def)
qed

lemma encode_block_value:
  "i < length pairs \<Longrightarrow> 2 * i + 1 < length bits \<Longrightarrow>
   encode_block bits pairs i = Inr (block_circuit (pairs ! i) (bits ! (2 * i)) (bits ! (2 * i + 1)))"
  by (simp add: encode_block_def encode_bits_def block_circuit_def bell_prep_def block_gates_def
      createBellState_def QuantumCircuit_def append_gate_def Let_def split: prod.splits)

lemma encode_block_error: "encode_block bits pairs i = Inl e \<Longrightarrow> e = IndexError"
  by (auto simp: encode_block_def encode_bits_def get_def bindE_def Let_def
      split: prod.splits if_splits sum.splits)

lemma encodeMessage_value:
  assumes "n \<le> length pairs" "2 * n \<le> length bits"
  shows "encodeMessage n bits pairs =
           Inr (map (\<lambda>i. block_circuit (pairs ! i) (bits ! (2 * i)) (bits ! (2 * i + 1))) [0..<n])"
proof -
  let ?st = "\<lambda>k. map (\<lambda>i. block_circuit (pairs ! i) (bits ! (2 * i)) (bits ! (2 * i + 1))) [0..<k]"
  have "for_range [0..<n]
          (\<lambda>i message. bindE (encode_block bits pairs i) (\<lambda>qc. Inr (message @ [qc]))) (?st 0)
        = Inr (?st n)"
    by (rule for_range_states [where st = ?st]) (use assms in \<open>simp add: encode_block_value\<close>)
  then show ?thesis by (simp add: encodeMessage_def)
qed

lemma encodeMessage_error: "encodeMessage n bits pairs = Inl e \<Longrightarrow> e = IndexError"
  unfolding encodeMessage_def
  by (erule for_range_error_kind) (auto simp: bindE_def split: sum.splits dest: encode_block_error)

lemma encode_block_success:
  assumes "encode_block bits pairs i = Inr qc"
  shows "i < length pairs \<and> 2 * i < length bits \<and>
         (bits ! (2 * i) \<in> {0, 1} \<longrightarrow> 2 * i + 1 < length bits)"
  using assms
  by (auto simp: encode_block_def encode_bits_def get_def bindE_def Let_def
      split: prod.splits if_splits sum.splits)

lemma encodeMessage_success:
  assumes "encodeMessage n bits pairs = Inr m"
  shows "n \<le> length pairs \<and> length m = n \<and>
         ((\<forall>j<length bits. bits ! j \<in> {0, 1}) \<longrightarrow> 2 * n \<le> length bits)"
proof -
  let ?body = "(\<lambda>i message. bindE (encode_block bits pairs i) (\<lambda>qc. Inr (message @ [qc])))"
  let ?I = "\<lambda>k s. k \<le> length pairs \<and> length s = k \<and>
         ((\<forall>j<length bits. bits ! j \<in> {0, 1}) \<longrightarrow> 2 * k \<le> length bits)"
  have run: "for_range [0..<n] ?body [] = Inr m"
    using assms by (simp add: encodeMessage_def)
  have "?I n m"
  proof (rule for_range_invariant [where I = ?I, OF run])
    show "?I 0 []" by simp
  next
    fix k s t
    assume k: "k < n" and inv: "?I k s" and body: "?body k s = Inr t"
    obtain qc where qc: "encode_block bits pairs k = Inr qc" and t: "t = s @ [qc]"
      using body by (cases "encode_block bits pairs k") auto
    from encode_block_success [OF qc] inv t show "?I (Suc k) t" by auto
  qed
  then show ?thesis by simp
qed

lemma map_nth_take: "n \<le> length xs \<Longrightarrow> map ((!) xs) [0..<n] = take n xs"
  by (induction n) (simp_all add: take_Suc_conv_app_nth)

lemma concat_blocks_take:
  "2 * n \<le> length xs \<Longrightarrow>
   concat (map (\<lambda>i. [xs ! (2 * i), xs ! (2 * i + 1)]) [0..<n]) = take (2 * n) xs"
  by (induction n) (simp_all add: take_Suc_conv_app_nth)

section \<open>Round trip on an ideal backend\<close>

lemma bb84_outcomes_00: "outcomes (measure_basis 0 (bb84_circuit 0 0)) = [''0'']"
  by code_simp
lemma bb84_outcomes_10: "outcomes (measure_basis 0 (bb84_circuit 1 0)) = [''1'']"
  by code_simp
lemma bb84_outcomes_01: "outcomes (measure_basis 1 (bb84_circuit 0 1)) = [''0'']"
  by code_simp
lemma bb84_outcomes_11: "outcomes (measure_basis 1 (bb84_circuit 1 1)) = [''1'']"
  by code_simp

lemma block_outcomes_closed:
  "list_all (\<lambda>p. list_all (\<lambda>b0. list_all (\<lambda>b1.
      outcomes (decode_gates p (block_circuit p b0 b1)) = [expected_memory b0 b1])
    [0, 1]) [0, 1]) [0, 1, 2]"
  by code_simp

lemma ideal_single: "ideal sim \<Longrightarrow> outcomes qc = [s] \<Longrightarrow> sim k qc = s"
  unfolding ideal_def by (metis list.distinct(1) list.set_cases list.inject empty_iff empty_set set_ConsD)

lemma ideal_ideal_choice: "ideal (ideal_choice prefer)"
  unfolding ideal_def ideal_choice_def by (auto split: list.splits)

lemma py_int_0: "py_int ''0'' = Inr 0"
  by (simp add: py_int_def is_digit_def digit_val_def)

lemma py_int_1: "py_int ''1'' = Inr 1"
  by (simp add: py_int_def is_digit_def digit_val_def)

lemma bb84_outcomes:
  assumes "b \<in> {0, 1}" "basis \<in> {0, 1}"
  shows "outcomes (measure_basis basis (bb84_circuit b basis)) = [if b = 0 then ''0'' else ''1'']"
  using assms bb84_outcomes_00 bb84_outcomes_01 bb84_outcomes_10 bb84_outcomes_11 by auto

lemma bb84_ideal_bit:
  assumes "ideal sim" "b \<in> {0, 1}" "basis \<in> {0, 1}"
  shows "py_int (sim k (measure_basis basis (bb84_circuit b basis))) = Inr b"
proof -
  have "sim k (measure_basis basis (bb84_circuit b basis)) = (if b = 0 then ''0'' else ''1'')"
    using ideal_single [OF assms(1) bb84_outcomes [OF assms(2,3)]] .
  then show ?thesis using assms(2) py_int_0 py_int_1 by auto
qed

lemma bb84_round_trip:
  assumes "ideal sim" "n \<le> length bits" "n \<le> length bases"
    and "\<forall>i<n. bits ! i \<in> {0, 1} \<and> bases ! i \<in> {0, 1}"
  shows "\<exists>m m'. encode_message n bits bases = Inr m \<and>
                 measure_message n sim m bases = Inr (take n bits, m')"
proof -
  let ?m = "map (\<lambda>i. bb84_circuit (bits ! i) (bases ! i)) [0..<n]"
  have enc: "encode_message n bits bases = Inr ?m"
    using assms(2,3) by (rule encode_message_value)
  have "measure_message n sim ?m bases =
          Inr (map ((!) bits) [0..<n],
               map (\<lambda>q. measure_basis (bases ! q) (?m ! q)) [0..<n] @ drop n ?m)"
  proof (rule measure_message_value)
    show "n \<le> length ?m" by simp
    show "n \<le> length bases" by (rule assms(3))
    fix q assume q: "q < n"
    then show "py_int (sim q (measure_basis (bases ! q) (?m ! q))) = Inr (bits ! q)"
      using bb84_ideal_bit [OF assms(1)] assms(4) by simp
  qed
  then show ?thesis using enc map_nth_take [OF assms(2)] by simp
qed

lemma pairing_cases:
  "pairing p = pairing 0 \<or> pairing p = pairing 1 \<or> pairing p = pairing 2"
  by (simp add: pairing_def)

lemma decode_block_pairing:
  "pairing p = pairing p' \<Longrightarrow>
   decode_gates p (block_circuit p b0 b1) = decode_gates p' (block_circuit p' b0 b1)"
  by (simp add: decode_gates_def block_circuit_def)

lemma block_outcomes:
  assumes "b0 \<in> {0, 1}" "b1 \<in> {0, 1}"
  shows "outcomes (decode_gates p (block_circuit p b0 b1)) = [expected_memory b0 b1]"
proof -
  have closed: "\<And>p'. p' \<in> {0, 1, 2} \<Longrightarrow>
      outcomes (decode_gates p' (block_circuit p' b0 b1)) = [expected_memory b0 b1]"
    using block_outcomes_closed assms by auto
  from pairing_cases [of p] show ?thesis
    using closed decode_block_pairing [of p _ b0 b1] by (metis insertI1 insertI2)
qed

lemma decode_lookup_expected:
  "b0 \<in> {0, 1} \<Longrightarrow> b1 \<in> {0, 1} \<Longrightarrow> decode_lookup (expected_memory b0 b1) = [b0, b1]"
  by (auto simp: decode_lookup_def expected_memory_def)

lemma measureBER_value:
  assumes "0 < n" "2 * n \<le> length xs" "2 * n \<le> length ys"
  shows "measureBER n xs ys =
           Inr (PFloat (1 - rnd_double
                  (of_nat (length (filter (same_block xs ys) [0..<n])) / of_nat n)))"
  using assms block_loop [of n xs ys 0] by (simp add: measureBER_def)

lemma same_block_take:
  "i < n \<Longrightarrow> same_block xs (take (2 * n) xs) i"
  by (simp add: same_block_def)

lemma measureBER_same:
  assumes "0 < n" "2 * n \<le> length xs"
  shows "measureBER n xs (take (2 * n) xs) = Inr (PFloat 0)"
proof -
  have "filter (same_block xs (take (2 * n) xs)) [0..<n] = [0..<n]"
    by (rule filter_True) (simp add: same_block_take)
  then show ?thesis using measureBER_value [of n xs "take (2 * n) xs"] assms by simp
qed

lemma ent_round_trip:
  assumes "ideal sim" "2 * n \<le> length bits" "n \<le> length pairs"
    and "\<forall>j<2 * n. bits ! j \<in> {0, 1}"
  shows "\<exists>m m'. encodeMessage n bits pairs = Inr m \<and>
                 decodeMessage n sim m pairs = Inr (take (2 * n) bits, m')"
proof -
  let ?bc = "\<lambda>i. block_circuit (pairs ! i) (bits ! (2 * i)) (bits ! (2 * i + 1))"
  let ?m = "map ?bc [0..<n]"
  have enc: "encodeMessage n bits pairs = Inr ?m"
    using assms(3,2) by (rule encodeMessage_value)
  have dec: "decodeMessage n sim ?m pairs =
           Inr (concat (map (\<lambda>i. decode_lookup (sim i (decode_gates (pairs ! i) (?m ! i)))) [0..<n]),
                map (\<lambda>i. decode_gates (pairs ! i) (?m ! i)) [0..<n] @ drop n ?m)"
    by (rule decodeMessage_value) (use assms(3) in simp_all)
  have "\<And>i. i < n \<Longrightarrow>
          decode_lookup (sim i (decode_gates (pairs ! i) (?m ! i))) = [bits ! (2 * i), bits ! (2 * i + 1)]"
  proof -
    fix i assume i: "i < n"
    then have b: "bits ! (2 * i) \<in> {0, 1}" "bits ! (2 * i + 1) \<in> {0, 1}"
      using assms(4) by auto
    have "sim i (decode_gates (pairs ! i) (?bc i)) = expected_memory (bits ! (2 * i)) (bits ! (2 * i + 1))"
      using ideal_single [OF assms(1) block_outcomes [OF b]] .
    then show "decode_lookup (sim i (decode_gates (pairs ! i) (?m ! i))) = [bits ! (2 * i), bits ! (2 * i + 1)]"
      using i decode_lookup_expected [OF b] by simp
  qed
  then have "concat (map (\<lambda>i. decode_lookup (sim i (decode_gates (pairs ! i) (?m ! i)))) [0..<n])
             = concat (map (\<lambda>i. [bits ! (2 * i), bits ! (2 * i + 1)]) [0..<n])"
    by (intro arg_cong [where f = concat] map_cong) auto
  then show ?thesis using enc dec concat_blocks_take [OF assms(2)] by simp
qed

text \<open>
  C7. On an ideal backend and without an eavesdropper, measuring the encoded message
  with the bases it was encoded with returns the sender's bits at every position (BB84),
  and decoding the encoded blocks with the pairings they were encoded with returns the
  sender's bits at every position (entanglement), so that the block error rate before
  sifting is 0. The instance in the witness is the scenario of the block (0,0) under
  pairing 0.
\<close>

theorem C7_round_trip:
  "(ideal sim \<and> n \<le> length bits \<and> n \<le> length bases \<and>
    (\<forall>i<n. bits ! i \<in> {0, 1} \<and> bases ! i \<in> {0, 1}) \<longrightarrow>
      (\<exists>m m'. encode_message n bits bases = Inr m \<and>
               measure_message n sim m bases = Inr (take n bits, m'))) \<and>
   (ideal sim \<and> 2 * n \<le> length bits \<and> n \<le> length pairs \<and> (\<forall>j<2 * n. bits ! j \<in> {0, 1}) \<longrightarrow>
      (\<exists>m m'. encodeMessage n bits pairs = Inr m \<and>
               decodeMessage n sim m pairs = Inr (take (2 * n) bits, m')) \<and>
      (0 < n \<longrightarrow> measureBER n bits (take (2 * n) bits) = Inr (PFloat 0)))"
  using bb84_round_trip ent_round_trip measureBER_same by blast

theorem C7_round_trip_witness:
  "ideal (ideal_choice (\<lambda>k. ''0'')) \<and>
   (\<exists>m m'. encode_message 2 [0, 1] [1, 0] = Inr m \<and>
            measure_message 2 (ideal_choice (\<lambda>k. ''0'')) m [1, 0] = Inr ([0, 1], m')) \<and>
   (\<exists>m m'. encodeMessage 1 [0, 0] [0] = Inr m \<and>
            decodeMessage 1 (ideal_choice (\<lambda>k. ''0'')) m [0] = Inr ([0, 0], m')) \<and>
   measureBER 1 [0, 0] [0, 0] = Inr (PFloat 0)"
  using C7_round_trip [of "ideal_choice (\<lambda>k. ''0'')" 2 "[0, 1]" "[1, 0]" "[]"]
    C7_round_trip [of "ideal_choice (\<lambda>k. ''0'')" 1 "[0, 0]" "[]" "[0]"]
    ideal_ideal_choice [of "\<lambda>k. ''0''"]
  by (simp add: less_Suc_eq numeral_eq_Suc)

section \<open>The Bell states of an encoded block\<close>

lemma prep_closed:
  "list_all (\<lambda>p. bell_pairs (final_state 4 (bell_prep (pairing p))) (pairing p) (PhiPlus, PhiPlus))
     [0, 1, 2]"
  by code_simp

lemma block_states_closed:
  "list_all (\<lambda>p. list_all (\<lambda>b0. list_all (\<lambda>b1.
      bell_pairs (final_state 4 (data (block_circuit p b0 b1))) (pairing p) (code_states b0 b1))
    [0, 1]) [0, 1]) [0, 1, 2]"
  by code_simp

lemma block_states_not_spec:
  "list_all (\<lambda>p. list_all (\<lambda>b0. list_all (\<lambda>b1.
      \<not> bell_pairs (final_state 4 (data (block_circuit p b0 b1))) (pairing p) (spec_states b0 b1))
    [0, 1]) [0, 1]) [0, 1, 2]"
  by code_simp

lemma block_circuit_pairing:
  "pairing p = pairing p' \<Longrightarrow> block_circuit p b0 b1 = block_circuit p' b0 b1"
  by (simp add: block_circuit_def)

lemma prep_state:
  "bell_pairs (final_state 4 (bell_prep (pairing p))) (pairing p) (PhiPlus, PhiPlus)"
  using pairing_cases [of p] prep_closed by auto

lemma block_state:
  assumes "b0 \<in> {0, 1}" "b1 \<in> {0, 1}"
  shows "bell_pairs (final_state 4 (data (block_circuit p b0 b1))) (pairing p) (code_states b0 b1)"
proof -
  have closed: "\<And>p'. p' \<in> {0, 1, 2} \<Longrightarrow>
      bell_pairs (final_state 4 (data (block_circuit p' b0 b1))) (pairing p') (code_states b0 b1)"
    using block_states_closed assms by auto
  from pairing_cases [of p] show ?thesis
    using closed block_circuit_pairing [of p _ b0 b1] by (metis insertI1 insertI2)
qed

lemma block_circuit_shape:
  assumes "b0 \<in> {0, 1}" "b1 \<in> {0, 1}"
  shows "take 5 (data (block_circuit p b0 b1)) = bell_prep (pairing p) \<and>
         list_all is_pauli (butlast (drop 5 (data (block_circuit p b0 b1)))) \<and>
         last (data (block_circuit p b0 b1)) = Barrier"
  using assms by (auto simp: block_circuit_def bell_prep_def block_gates_def butlast_append)

text \<open>
  C5 (as amended). For every block value and every pairing label, the encoder first
  prepares \<open>\<Phi>+\<close> on both pairs (Hadamard on the first qubit of the pair, CNOT onto its
  partner, then a barrier) and then applies only X and Z gates, which leave the two pairs
  in the Bell states (0,0): \<open>\<Phi>+, \<Psi>+\<close>; (0,1): \<open>\<Psi>+, \<Phi>+\<close>; (1,0): \<open>\<Phi>-, \<Psi>-\<close>;
  (1,1): \<open>\<Psi>-, \<Phi>-\<close> in their standard definition, which is the table of the
  specification with \<open>\<Phi>-\<close> and \<open>\<Psi>+\<close> exchanged.
\<close>

theorem C5_bell_states:
  "i < length pairs \<and> 2 * i + 1 < length bits \<and>
   bits ! (2 * i) \<in> {0, 1} \<and> bits ! (2 * i + 1) \<in> {0, 1} \<longrightarrow>
     (\<exists>qc. encode_block bits pairs i = Inr qc \<and>
        take 5 (data qc) = bell_prep (pairing (pairs ! i)) \<and>
        bell_pairs (final_state 4 (take 5 (data qc))) (pairing (pairs ! i)) (PhiPlus, PhiPlus) \<and>
        list_all is_pauli (butlast (drop 5 (data qc))) \<and>
        bell_pairs (final_state 4 (data qc)) (pairing (pairs ! i))
          (code_states (bits ! (2 * i)) (bits ! (2 * i + 1))))"
  using encode_block_value [of i pairs bits] block_circuit_shape block_state prep_state
  by auto

theorem C5_bell_states_witness:
  "\<exists>qc. encode_block [0, 1, 1, 0] [2, 1] 1 = Inr qc \<and>
        take 5 (data qc) = [H 0, CX 0 2, H 1, CX 1 3, Barrier] \<and>
        bell_pairs (final_state 4 (data qc)) ((0, 2), (1, 3)) (PhiMinus, PsiMinus)"
  using C5_bell_states [of 1 "[2, 1]" "[0, 1, 1, 0]"]
  by (simp add: bell_prep_def pairing_def code_states_def) blast

text \<open>
  C5 as stated fails: for the block (0,0) under pairing 0 the encoder applies X to
  qubit 2, and the second pair is then in \<open>\<Psi>+\<close>, not in \<open>\<Phi>-\<close>.
\<close>

theorem C5_counterexample:
  "encode_block [0, 0] [0] 0 = Inr (block_circuit 0 0 0) \<and>
   data (block_circuit 0 0 0) = [H 0, CX 0 1, H 2, CX 2 3, Barrier, X 2, Barrier] \<and>
   spec_states 0 0 = (PhiPlus, PhiMinus) \<and>
   \<not> bell_pairs (final_state 4 (data (block_circuit 0 0 0))) ((0, 1), (2, 3)) (PhiPlus, PhiMinus) \<and>
   bell_pairs (final_state 4 (data (block_circuit 0 0 0))) ((0, 1), (2, 3)) (PhiPlus, PsiPlus)"
proof -
  have "encode_block [0, 0] [0] 0 = Inr (block_circuit 0 0 0)"
    using encode_block_value [of 0 "[0]" "[0, 0]"] by simp
  moreover have "data (block_circuit 0 0 0) = [H 0, CX 0 1, H 2, CX 2 3, Barrier, X 2, Barrier]"
    by (simp add: block_circuit_def bell_prep_def block_gates_def pairing_def)
  moreover have "spec_states 0 0 = (PhiPlus, PhiMinus)" by (simp add: spec_states_def)
  moreover have "\<not> bell_pairs (final_state 4 (data (block_circuit 0 0 0))) ((0, 1), (2, 3)) (PhiPlus, PhiMinus)"
    by code_simp
  moreover have "bell_pairs (final_state 4 (data (block_circuit 0 0 0))) ((0, 1), (2, 3)) (PhiPlus, PsiPlus)"
    by code_simp
  ultimately show ?thesis by simp
qed

section \<open>Decoding changes the circuits in place\<close>

lemma measure_message_frame:
  assumes "measure_message n sim message bases = Inr (ms, message')"
  shows "length message' = length message \<and> length ms = n \<and>
         (\<forall>q<n. message' ! q = (message ! q)\<lparr>data := data (message ! q) @ measure_suffix (bases ! q)\<rparr> \<and>
                py_int (sim q (message' ! q)) = Inr (ms ! q))"
proof -
  note s = measure_message_success [OF assms]
  have nth: "\<And>q. q < n \<Longrightarrow> message' ! q = measure_basis (bases ! q) (message ! q)"
    using s by (simp add: nth_append)
  show ?thesis using s nth by (simp add: data_measure_basis)
qed

lemma decodeMessage_success:
  assumes "decodeMessage n sim message pairs = Inr (rs, message')"
  shows "n \<le> length message \<and> n \<le> length pairs \<and>
         rs = concat (map (\<lambda>i. decode_lookup (sim i (decode_gates (pairs ! i) (message ! i)))) [0..<n]) \<and>
         message' = map (\<lambda>i. decode_gates (pairs ! i) (message ! i)) [0..<n] @ drop n message"
proof (cases "n \<le> length message \<and> n \<le> length pairs")
  case True
  then show ?thesis using decodeMessage_value [of n message pairs sim] assms by simp
next
  case False
  then show ?thesis using decodeMessage_raises [of n message pairs sim] assms by simp
qed

lemma length_decode_results:
  "length (concat (map (\<lambda>i. decode_lookup (g i)) [0..<n])) = 2 * n"
  by (induction n) (simp_all add: decode_lookup_def)

lemma decodeMessage_frame:
  assumes "decodeMessage n sim message pairs = Inr (rs, message')"
  shows "length message' = length message \<and> length rs = 2 * n \<and>
         (\<forall>i<n. message' ! i = (message ! i)\<lparr>data := data (message ! i) @ decode_suffix (pairs ! i)\<rparr>) \<and>
         rs = concat (map (\<lambda>i. decode_lookup (sim i (message' ! i))) [0..<n])"
proof -
  note s = decodeMessage_success [OF assms]
  have nth: "\<And>i. i < n \<Longrightarrow> message' ! i = decode_gates (pairs ! i) (message ! i)"
    using s by (simp add: nth_append)
  have "concat (map (\<lambda>i. decode_lookup (sim i (decode_gates (pairs ! i) (message ! i)))) [0..<n])
        = concat (map (\<lambda>i. decode_lookup (sim i (message' ! i))) [0..<n])"
    by (intro arg_cong [where f = concat] map_cong) (simp_all add: nth)
  then show ?thesis using s nth length_decode_results by (simp add: data_decode_gates)
qed

lemma measure_suffix_measures:
  "basis \<in> {0, 1} \<Longrightarrow> Measure 0 0 \<in> set (measure_suffix basis) \<and> measure_suffix basis \<noteq> []"
  by (auto simp: measure_suffix_def)

lemma decode_suffix_measures:
  "decode_suffix p \<noteq> [] \<and> length (decode_suffix p) = 8 \<and>
   (\<exists>q. Measure q 0 \<in> set (decode_suffix p))"
  by (auto simp: decode_suffix_def Let_def)

lemma circuit_changed: "gs \<noteq> [] \<Longrightarrow> qc\<lparr>data := data qc @ gs\<rparr> \<noteq> qc"
proof
  assume "gs \<noteq> []" and "qc\<lparr>data := data qc @ gs\<rparr> = qc"
  then have "data (qc\<lparr>data := data qc @ gs\<rparr>) = data qc" by simp
  then show False using \<open>gs \<noteq> []\<close> by simp
qed

lemma measure_message_changes:
  assumes "measure_message n sim message bases = Inr (ms, message')" "q < n"
    and "bases ! q \<in> {0, 1}"
  shows "message' ! q = (message ! q)\<lparr>data := data (message ! q) @ measure_suffix (bases ! q)\<rparr> \<and>
         Measure 0 0 \<in> set (data (message' ! q)) \<and> message' ! q \<noteq> message ! q \<and>
         py_int (sim q (message' ! q)) = Inr (ms ! q)"
proof -
  have m: "message' ! q = (message ! q)\<lparr>data := data (message ! q) @ measure_suffix (bases ! q)\<rparr>"
    and v: "py_int (sim q (message' ! q)) = Inr (ms ! q)"
    using measure_message_frame [OF assms(1)] assms(2) by blast+
  have "message' ! q \<noteq> message ! q"
    unfolding m using measure_suffix_measures [OF assms(3)] by (intro circuit_changed) simp
  moreover have "Measure 0 0 \<in> set (data (message' ! q))"
    unfolding m using measure_suffix_measures [OF assms(3)] by simp
  ultimately show ?thesis using m v by simp
qed

lemma measure_message_twice:
  assumes "measure_message n sim message bases = Inr (ms, message')"
    and "measure_message n sim2 message' bases2 = Inr (ms2, message'')" and "q < n"
  shows "data (message'' ! q) =
           data (message ! q) @ measure_suffix (bases ! q) @ measure_suffix (bases2 ! q) \<and>
         py_int (sim2 q (message'' ! q)) = Inr (ms2 ! q)"
proof -
  have m1: "message' ! q = (message ! q)\<lparr>data := data (message ! q) @ measure_suffix (bases ! q)\<rparr>"
    using measure_message_frame [OF assms(1)] assms(3) by blast
  have m2: "message'' ! q = (message' ! q)\<lparr>data := data (message' ! q) @ measure_suffix (bases2 ! q)\<rparr>"
    and v: "py_int (sim2 q (message'' ! q)) = Inr (ms2 ! q)"
    using measure_message_frame [OF assms(2)] assms(3) by blast+
  have "data (message'' ! q) =
           data (message ! q) @ measure_suffix (bases ! q) @ measure_suffix (bases2 ! q)"
    unfolding m2 m1 by simp
  then show ?thesis using v by simp
qed

lemma decodeMessage_changes:
  assumes "decodeMessage n sim message pairs = Inr (rs, decoded)" "i < n"
  shows "decoded ! i = (message ! i)\<lparr>data := data (message ! i) @ decode_suffix (pairs ! i)\<rparr> \<and>
         decoded ! i \<noteq> message ! i"
proof -
  have m: "decoded ! i = (message ! i)\<lparr>data := data (message ! i) @ decode_suffix (pairs ! i)\<rparr>"
    using decodeMessage_frame [OF assms(1)] assms(2) by blast
  have "decoded ! i \<noteq> message ! i"
    unfolding m using decode_suffix_measures [of "pairs ! i"] by (intro circuit_changed) simp
  then show ?thesis using m by simp
qed

lemma decodeMessage_twice:
  assumes "decodeMessage n sim message pairs = Inr (rs, decoded)"
    and "decodeMessage n sim2 decoded pairs2 = Inr (rs2, decoded2)" and "i < n"
  shows "data (decoded2 ! i) =
           data (message ! i) @ decode_suffix (pairs ! i) @ decode_suffix (pairs2 ! i)"
proof -
  have m1: "decoded ! i = (message ! i)\<lparr>data := data (message ! i) @ decode_suffix (pairs ! i)\<rparr>"
    using decodeMessage_frame [OF assms(1)] assms(3) by blast
  have m2: "decoded2 ! i = (decoded ! i)\<lparr>data := data (decoded ! i) @ decode_suffix (pairs2 ! i)\<rparr>"
    using decodeMessage_frame [OF assms(2)] assms(3) by blast
  show ?thesis unfolding m2 m1 by simp
qed

text \<open>
  C10. A measurement or decoder call that returns leaves the message list changed: for
  every position below the configured size the circuit has the basis rotation and the
  measurements appended (Hadamard and a measurement for the X basis, a measurement for
  the Z basis; CNOT and Hadamard per pair and four measurements for a block), the
  backend has run that changed circuit, and the circuit differs from the encoded one.
  A second call on the same list appends a second suffix to circuits that already
  contain measurements.
\<close>

theorem C10_in_place:
  "(measure_message n sim message bases = Inr (ms, message') \<and> (\<forall>q<n. bases ! q \<in> {0, 1}) \<longrightarrow>
      length message' = length message \<and>
      (\<forall>q<n. message' ! q = (message ! q)\<lparr>data := data (message ! q) @ measure_suffix (bases ! q)\<rparr> \<and>
             Measure 0 0 \<in> set (data (message' ! q)) \<and> message' ! q \<noteq> message ! q \<and>
             py_int (sim q (message' ! q)) = Inr (ms ! q)) \<and>
      (\<forall>ms2 message''. measure_message n sim2 message' bases2 = Inr (ms2, message'') \<longrightarrow>
         (\<forall>q<n. data (message'' ! q) =
                  data (message ! q) @ measure_suffix (bases ! q) @ measure_suffix (bases2 ! q) \<and>
                py_int (sim2 q (message'' ! q)) = Inr (ms2 ! q)))) \<and>
   (decodeMessage n sim message pairs = Inr (rs, decoded) \<longrightarrow>
      length decoded = length message \<and>
      (\<forall>i<n. decoded ! i = (message ! i)\<lparr>data := data (message ! i) @ decode_suffix (pairs ! i)\<rparr> \<and>
             decoded ! i \<noteq> message ! i) \<and>
      rs = concat (map (\<lambda>i. decode_lookup (sim i (decoded ! i))) [0..<n]) \<and>
      (\<forall>rs2 decoded2. decodeMessage n sim2 decoded pairs2 = Inr (rs2, decoded2) \<longrightarrow>
         (\<forall>i<n. data (decoded2 ! i) =
                  data (message ! i) @ decode_suffix (pairs ! i) @ decode_suffix (pairs2 ! i)) \<and>
         rs2 = concat (map (\<lambda>i. decode_lookup (sim2 i (decoded2 ! i))) [0..<n])))"
proof (intro conjI impI)
  assume a: "measure_message n sim message bases = Inr (ms, message') \<and> (\<forall>q<n. bases ! q \<in> {0, 1})"
  show "length message' = length message"
    using a measure_message_frame [of n sim message bases ms message'] by blast
  show "\<forall>q<n. message' ! q = (message ! q)\<lparr>data := data (message ! q) @ measure_suffix (bases ! q)\<rparr> \<and>
        Measure 0 0 \<in> set (data (message' ! q)) \<and> message' ! q \<noteq> message ! q \<and>
        py_int (sim q (message' ! q)) = Inr (ms ! q)"
  proof (intro allI impI)
    fix q assume q: "q < n"
    show "message' ! q = (message ! q)\<lparr>data := data (message ! q) @ measure_suffix (bases ! q)\<rparr> \<and>
        Measure 0 0 \<in> set (data (message' ! q)) \<and> message' ! q \<noteq> message ! q \<and>
        py_int (sim q (message' ! q)) = Inr (ms ! q)"
      using a q by (intro measure_message_changes) blast+
  qed
  show "\<forall>ms2 message''. measure_message n sim2 message' bases2 = Inr (ms2, message'') \<longrightarrow>
         (\<forall>q<n. data (message'' ! q) =
                  data (message ! q) @ measure_suffix (bases ! q) @ measure_suffix (bases2 ! q) \<and>
                py_int (sim2 q (message'' ! q)) = Inr (ms2 ! q))"
  proof (intro allI impI)
    fix ms2 message'' q
    assume b: "measure_message n sim2 message' bases2 = Inr (ms2, message'')" and q: "q < n"
    show "data (message'' ! q) =
          data (message ! q) @ measure_suffix (bases ! q) @ measure_suffix (bases2 ! q) \<and>
        py_int (sim2 q (message'' ! q)) = Inr (ms2 ! q)"
      using a b q by (intro measure_message_twice) blast+
  qed
next
  assume a: "decodeMessage n sim message pairs = Inr (rs, decoded)"
  show "length decoded = length message" using decodeMessage_frame [OF a] by blast
  show "\<forall>i<n. decoded ! i = (message ! i)\<lparr>data := data (message ! i) @ decode_suffix (pairs ! i)\<rparr> \<and>
        decoded ! i \<noteq> message ! i"
    using decodeMessage_changes [OF a] by blast
  show "rs = concat (map (\<lambda>i. decode_lookup (sim i (decoded ! i))) [0..<n])"
    using decodeMessage_frame [OF a] by blast
  show "\<forall>rs2 decoded2. decodeMessage n sim2 decoded pairs2 = Inr (rs2, decoded2) \<longrightarrow>
         (\<forall>i<n. data (decoded2 ! i) =
                  data (message ! i) @ decode_suffix (pairs ! i) @ decode_suffix (pairs2 ! i)) \<and>
         rs2 = concat (map (\<lambda>i. decode_lookup (sim2 i (decoded2 ! i))) [0..<n])"
  proof (intro allI impI conjI)
    fix rs2 decoded2 i
    assume b: "decodeMessage n sim2 decoded pairs2 = Inr (rs2, decoded2)" and i: "i < n"
    show "data (decoded2 ! i) =
          data (message ! i) @ decode_suffix (pairs ! i) @ decode_suffix (pairs2 ! i)"
      using a b i by (rule decodeMessage_twice)
  next
    fix rs2 decoded2
    assume b: "decodeMessage n sim2 decoded pairs2 = Inr (rs2, decoded2)"
    show "rs2 = concat (map (\<lambda>i. decode_lookup (sim2 i (decoded2 ! i))) [0..<n])"
      using decodeMessage_frame [OF b] by blast
  qed
qed

theorem C10_in_place_witness:
  "measure_message 2 (\<lambda>k qc. ''1'') [bb84_circuit 0 0, bb84_circuit 1 1] [1, 0] =
     Inr ([1, 1],
          [\<lparr>num_qubits = 1, num_clbits = 1, data = [Barrier, H 0, Measure 0 0]\<rparr>,
           \<lparr>num_qubits = 1, num_clbits = 1, data = [X 0, H 0, Barrier, Measure 0 0]\<rparr>]) \<and>
   \<lparr>num_qubits = 1, num_clbits = 1, data = [Barrier, H 0, Measure 0 0]\<rparr> \<noteq> bb84_circuit 0 0 \<and>
   \<lparr>num_qubits = 1, num_clbits = 1, data = [X 0, H 0, Barrier, Measure 0 0]\<rparr> \<noteq> bb84_circuit 1 1 \<and>
   decodeMessage 1 (\<lambda>k qc. ''0001'') [block_circuit 0 0 0] [0] =
     Inr ([0, 0],
          [\<lparr>num_qubits = 4, num_clbits = 4,
            data = [H 0, CX 0 1, H 2, CX 2 3, Barrier, X 2, Barrier, CX 0 1, H 0, CX 2 3, H 2,
                    Measure 0 3, Measure 1 2, Measure 2 1, Measure 3 0]\<rparr>]) \<and>
   \<lparr>num_qubits = 4, num_clbits = 4,
     data = [H 0, CX 0 1, H 2, CX 2 3, Barrier, X 2, Barrier, CX 0 1, H 0, CX 2 3, H 2,
             Measure 0 3, Measure 1 2, Measure 2 1, Measure 3 0]\<rparr> \<noteq> block_circuit 0 0 0"
proof -
  have a: "measure_message 2 (\<lambda>k qc. ''1'') [bb84_circuit 0 0, bb84_circuit 1 1] [1, 0] =
     Inr ([1, 1],
          [\<lparr>num_qubits = 1, num_clbits = 1, data = [Barrier, H 0, Measure 0 0]\<rparr>,
           \<lparr>num_qubits = 1, num_clbits = 1, data = [X 0, H 0, Barrier, Measure 0 0]\<rparr>])"
    by (simp add: measure_message_def measure_basis_def bb84_circuit_def append_gate_def
        py_int_1 get_def numeral_eq_Suc Let_def)
  have b: "decodeMessage 1 (\<lambda>k qc. ''0001'') [block_circuit 0 0 0] [0] =
     Inr ([0, 0],
          [\<lparr>num_qubits = 4, num_clbits = 4,
            data = [H 0, CX 0 1, H 2, CX 2 3, Barrier, X 2, Barrier, CX 0 1, H 0, CX 2 3, H 2,
                    Measure 0 3, Measure 1 2, Measure 2 1, Measure 3 0]\<rparr>])"
    by (simp add: decodeMessage_def decode_gates_def block_circuit_def bell_prep_def block_gates_def
        pairing_def append_gate_def decode_lookup_def get_def Let_def)
  have bases: "\<forall>q<2. [1, 0 :: int] ! q \<in> {0, 1}"
    by (simp add: less_Suc_eq numeral_eq_Suc)
  note bb84 = C10_in_place [where n = 2 and sim = "\<lambda>k qc. ''1''"
        and message = "[bb84_circuit 0 0, bb84_circuit 1 1]" and bases = "[1, 0]" and ms = "[1, 1]"
        and message' = "[\<lparr>num_qubits = 1, num_clbits = 1, data = [Barrier, H 0, Measure 0 0]\<rparr>,
          \<lparr>num_qubits = 1, num_clbits = 1, data = [X 0, H 0, Barrier, Measure 0 0]\<rparr>]",
        THEN conjunct1, THEN mp, OF conjI [OF a bases]]
  note ent = C10_in_place [where n = 1 and sim = "\<lambda>k qc. ''0001''"
        and message = "[block_circuit 0 0 0]" and pairs = "[0]" and rs = "[0, 0]"
        and decoded = "[\<lparr>num_qubits = 4, num_clbits = 4,
            data = [H 0, CX 0 1, H 2, CX 2 3, Barrier, X 2, Barrier, CX 0 1, H 0, CX 2 3, H 2,
                    Measure 0 3, Measure 1 2, Measure 2 1, Measure 3 0]\<rparr>]",
        THEN conjunct2, THEN mp, OF b]
  have c: "\<forall>q<2. [\<lparr>num_qubits = 1, num_clbits = 1, data = [Barrier, H 0, Measure 0 0]\<rparr>,
           \<lparr>num_qubits = 1, num_clbits = 1, data = [X 0, H 0, Barrier, Measure 0 0]\<rparr>] ! q
          \<noteq> [bb84_circuit 0 0, bb84_circuit 1 1] ! q"
    using bb84 by blast
  have d: "\<forall>i<1. [\<lparr>num_qubits = 4, num_clbits = 4,
            data = [H 0, CX 0 1, H 2, CX 2 3, Barrier, X 2, Barrier, CX 0 1, H 0, CX 2 3, H 2,
                    Measure 0 3, Measure 1 2, Measure 2 1, Measure 3 0]\<rparr>] ! i
          \<noteq> [block_circuit 0 0 0] ! i"
    using ent by blast
  have c0: "\<lparr>num_qubits = 1, num_clbits = 1, data = [Barrier, H 0, Measure 0 0]\<rparr> \<noteq> bb84_circuit 0 0"
    using c [rule_format, of 0] by simp
  have c1: "\<lparr>num_qubits = 1, num_clbits = 1, data = [X 0, H 0, Barrier, Measure 0 0]\<rparr> \<noteq> bb84_circuit 1 1"
    using c [rule_format, of 1] by simp
  have d0: "\<lparr>num_qubits = 4, num_clbits = 4,
     data = [H 0, CX 0 1, H 2, CX 2 3, Barrier, X 2, Barrier, CX 0 1, H 0, CX 2 3, H 2,
             Measure 0 3, Measure 1 2, Measure 2 1, Measure 3 0]\<rparr> \<noteq> block_circuit 0 0 0"
    using d [rule_format, of 0] by simp
  show ?thesis by (intro conjI a b c0 c1 d0)
qed

section \<open>Index safety\<close>

lemma for_range_error_inv:
  assumes "for_range [0..<n] body s0 = Inl e" and "I 0 s0"
    and "\<And>k s t. k < n \<Longrightarrow> I k s \<Longrightarrow> body k s = Inr t \<Longrightarrow> I (Suc k) t"
    and "\<And>k s e'. k < n \<Longrightarrow> I k s \<Longrightarrow> body k s = Inl e' \<Longrightarrow> P e'"
  shows "P e"
  using assms
proof (induction n)
  case 0
  then show ?case by simp
next
  case (Suc n)
  show ?case
  proof (cases "for_range [0..<n] body s0")
    case (Inl e')
    then have e: "e' = e" using Suc.prems(1) unfolding for_range_Suc by simp
    have run: "for_range [0..<n] body s0 = Inl e" using Inl e by simp
    have "P e"
    proof (rule Suc.IH [OF run Suc.prems(2)])
      fix k s t assume "k < n" "I k s" "body k s = Inr t"
      then show "I (Suc k) t" using Suc.prems(3) [of k s t] by simp
    next
      fix k s e'' assume "k < n" "I k s" "body k s = Inl e''"
      then show "P e''" using Suc.prems(4) [of k s e''] by simp
    qed
    then show ?thesis .
  next
    case (Inr s1)
    have "I n s1"
      by (rule for_range_invariant [where I = I, OF Inr Suc.prems(2)]) (use Suc.prems(3) in simp)
    moreover have "body n s1 = Inl e" using Suc.prems(1) Inr unfolding for_range_Suc by simp
    ultimately show ?thesis using Suc.prems(4) [of n s1 e] by simp
  qed
qed

lemma measure_message_no_index_error:
  assumes "n \<le> length message" "n \<le> length bases"
  shows "measure_message n sim message bases \<noteq> Inl IndexError"
proof
  let ?body = "(\<lambda>q (measurements, message).
          bindE (get message q) (\<lambda>qc.
          bindE (get bases q) (\<lambda>basis.
            let qc = measure_basis basis qc;
                measuredBits = sim q qc
            in bindE (py_int measuredBits) (\<lambda>measured_bit.
                 Inr (measurements @ [measured_bit], message[q := qc])))))"
  let ?I = "\<lambda>(k::nat) (s :: int list \<times> circuit list). length (snd s) = length message"
  assume "measure_message n sim message bases = Inl IndexError"
  then have run: "for_range [0..<n] ?body ([], message) = Inl IndexError"
    by (simp add: measure_message_def)
  have "IndexError = ValueError"
  proof (rule for_range_error_inv [where I = ?I and P = "\<lambda>e. e = ValueError", OF run])
    show "?I 0 ([], message)" by simp
  next
    fix k s t assume "k < n" "?I k s" "?body k s = Inr t"
    then show "?I (Suc k) t"
      by (cases s) (auto simp: bindE_def get_def Let_def split: sum.splits if_splits)
  next
    fix k s e' assume "k < n" "?I k s" "?body k s = Inl e'"
    then show "e' = ValueError"
      using assms
      by (cases s) (auto simp: bindE_def get_def Let_def split: sum.splits if_splits dest: py_int_error)
  qed
  then show False by simp
qed

lemma discardBits_guarded:
  "k \<le> length aliceBases \<Longrightarrow> k \<le> length bobBases \<Longrightarrow>
   (\<forall>i<k. aliceBases ! i = bobBases ! i \<longrightarrow> i < length results \<and> i < length aliceBits) \<Longrightarrow>
   discardBits k results aliceBits aliceBases bobBases =
     Inr (map ((!) results) (kept k aliceBases bobBases),
          map ((!) aliceBits) (kept k aliceBases bobBases))"
proof (induction k)
  case 0
  then show ?case by (simp add: discardBits_def kept_def)
next
  case (Suc k)
  then have IH: "discardBits k results aliceBits aliceBases bobBases =
     Inr (map ((!) results) (kept k aliceBases bobBases),
          map ((!) aliceBits) (kept k aliceBases bobBases))"
    by simp
  show ?case
    using Suc.prems IH unfolding discardBits_def for_range_Suc
    by (simp add: kept_def)
qed

lemma discardBits_success:
  assumes "discardBits n results aliceBits aliceBases bobBases = Inr out"
  shows "n \<le> length aliceBases \<and> n \<le> length bobBases"
proof -
  let ?body = "(\<lambda>i (newResults, newAliceBits).
          bindE (get aliceBases i) (\<lambda>a.
          bindE (get bobBases i) (\<lambda>b.
            if a = b then
              bindE (get results i) (\<lambda>r.
              bindE (get aliceBits i) (\<lambda>ab.
                Inr (newResults @ [r], newAliceBits @ [ab])))
            else Inr (newResults, newAliceBits))))"
  let ?I = "\<lambda>(k::nat) (s :: int list \<times> int list). k \<le> length aliceBases \<and> k \<le> length bobBases"
  have run: "for_range [0..<n] ?body ([], []) = Inr out"
    using assms by (simp add: discardBits_def)
  show ?thesis
  proof (rule for_range_invariant [where I = ?I, OF run])
    show "?I 0 ([], [])" by simp
  next
    fix k s t assume "k < n" "?I k s" "?body k s = Inr t"
    then show "?I (Suc k) t"
      by (cases s) (auto simp: bindE_def get_def split: sum.splits if_splits)
  qed
qed

lemma discardBits_ent_success:
  assumes "discardBits_ent n results aliceBits alicePairs bobPairs = Inr out"
  shows "n \<le> length alicePairs \<and> n \<le> length bobPairs"
proof -
  let ?body = "(\<lambda>i (newResults, newAliceBits).
          bindE (get alicePairs i) (\<lambda>a.
          bindE (get bobPairs i) (\<lambda>b.
            if a = b then
              bindE (get results (2 * i)) (\<lambda>r0.
              bindE (get results (2 * i + 1)) (\<lambda>r1.
              bindE (get aliceBits (2 * i)) (\<lambda>a0.
              bindE (get aliceBits (2 * i + 1)) (\<lambda>a1.
                Inr (newResults @ [r0, r1], newAliceBits @ [a0, a1])))))
            else Inr (newResults, newAliceBits))))"
  let ?I = "\<lambda>(k::nat) (s :: int list \<times> int list). k \<le> length alicePairs \<and> k \<le> length bobPairs"
  have run: "for_range [0..<n] ?body ([], []) = Inr out"
    using assms by (simp add: discardBits_ent_def)
  show ?thesis
  proof (rule for_range_invariant [where I = ?I, OF run])
    show "?I 0 ([], [])" by simp
  next
    fix k s t assume "k < n" "?I k s" "?body k s = Inr t"
    then show "?I (Suc k) t"
      by (cases s) (auto simp: bindE_def get_def split: sum.splits if_splits)
  qed
qed

lemma discardBits_ent_guarded:
  "k \<le> length alicePairs \<Longrightarrow> k \<le> length bobPairs \<Longrightarrow>
   (\<forall>i<k. alicePairs ! i = bobPairs ! i \<longrightarrow>
      2 * i + 1 < length results \<and> 2 * i + 1 < length aliceBits) \<Longrightarrow>
   discardBits_ent k results aliceBits alicePairs bobPairs =
     Inr (map ((!) results) (block_positions (kept k alicePairs bobPairs)),
          map ((!) aliceBits) (block_positions (kept k alicePairs bobPairs)))"
proof (induction k)
  case 0
  then show ?case by (simp add: discardBits_ent_def kept_def block_positions_def)
next
  case (Suc k)
  then have IH: "discardBits_ent k results aliceBits alicePairs bobPairs =
     Inr (map ((!) results) (block_positions (kept k alicePairs bobPairs)),
          map ((!) aliceBits) (block_positions (kept k alicePairs bobPairs)))"
    by simp
  have here: "alicePairs ! k = bobPairs ! k \<Longrightarrow>
      2 * k < length results \<and> 2 * k + 1 < length results \<and>
      2 * k < length aliceBits \<and> 2 * k + 1 < length aliceBits"
    using Suc.prems(3) by auto
  show ?case
    using Suc.prems(1,2) IH here unfolding discardBits_ent_def for_range_Suc
    by (simp add: kept_def block_positions_def)
qed

lemma discardBits_ent_returns:
  assumes "n \<le> length alicePairs" "n \<le> length bobPairs"
    and "\<forall>i<n. alicePairs ! i = bobPairs ! i \<longrightarrow>
           2 * i + 1 < length results \<and> 2 * i + 1 < length aliceBits"
  shows "\<exists>nr na. discardBits_ent n results aliceBits alicePairs bobPairs = Inr (nr, na) \<and>
           length nr = length na \<and> length nr \<le> 2 * n"
  using discardBits_ent_guarded [OF assms] length_kept [of n alicePairs bobPairs]
  by (simp add: length_block_positions)

lemma discardBits_returns:
  assumes "n \<le> length aliceBases" "n \<le> length bobBases"
    and "\<forall>i<n. aliceBases ! i = bobBases ! i \<longrightarrow> i < length results \<and> i < length aliceBits"
  shows "\<exists>nr na. discardBits n results aliceBits aliceBases bobBases = Inr (nr, na) \<and>
           length nr = length na \<and> length nr \<le> n"
  using discardBits_guarded [OF assms] length_kept [of n aliceBases bobBases]
  by simp

lemma measure_message_returns:
  assumes "n \<le> length message" "n \<le> length bases"
    and "\<forall>q<n. \<exists>v. py_int (sim q (measure_basis (bases ! q) (message ! q))) = Inr v"
  shows "\<exists>ms m'. measure_message n sim message bases = Inr (ms, m') \<and>
           length ms = n \<and> length m' = length message"
proof -
  have "\<forall>q. \<exists>v. q < n \<longrightarrow>
          py_int (sim q (measure_basis (bases ! q) (message ! q))) = Inr v"
    using assms(3) by blast
  then have "\<exists>v. \<forall>q. q < n \<longrightarrow>
          py_int (sim q (measure_basis (bases ! q) (message ! q))) = Inr (v q)"
    by (rule choice)
  then obtain v where
    v: "\<And>q. q < n \<Longrightarrow> py_int (sim q (measure_basis (bases ! q) (message ! q))) = Inr (v q)"
    by blast
  have "measure_message n sim message bases =
          Inr (map v [0..<n],
               map (\<lambda>q. measure_basis (bases ! q) (message ! q)) [0..<n] @ drop n message)"
    using assms(1,2) v by (rule measure_message_value)
  then show ?thesis using assms(1) by simp
qed

lemma bb84_measurements:
  assumes "ideal sim" "n \<le> length bits" "n \<le> length bases"
    and "\<forall>i<n. bits ! i \<in> {0, 1} \<and> bases ! i \<in> {0, 1}"
  shows "\<exists>m ms m'. encode_message n bits bases = Inr m \<and>
           measure_message n sim m bases = Inr (ms, m') \<and> length ms = n"
proof -
  obtain m m' where "encode_message n bits bases = Inr m"
    and "measure_message n sim m bases = Inr (take n bits, m')"
    using bb84_round_trip [OF assms] by blast
  then show ?thesis using assms(2) by auto
qed

lemma measureBER_returns:
  assumes "0 < n" "2 * n \<le> length xs" "2 * n \<le> length ys"
  shows "\<exists>v. measureBER n xs ys = Inr (PFloat v)"
  using measureBER_value [OF assms] by blast

lemma length_upt_map: "length (map g [0..<n]) = n"
  by simp

text \<open>
  C9 (as amended). The encoders, the decoders, both sifting functions and \<open>measureBER\<close>
  iterate over the configured size, not over the lengths of their arguments. When every
  input sequence has at least the configured length (twice the number of pairings for
  entanglement bit sequences) no index access is out of range and the outputs have the
  configured size: \<open>n\<close> circuits per encode call, \<open>2n\<close> decoded bits per decode call,
  and \<open>n\<close> measurements per BB84 measurement call, which returns whenever every memory
  string of the backend reads as an integer, as it does on an ideal backend for an encoded
  message; both sifting functions then return two sequences of equal length, at most
  \<open>n\<close> kept bits and at most \<open>2n\<close> kept bits of whole blocks. A basis, pairing or message
  sequence shorter than the configured size makes the call fail, and so does a shorter
  bit sequence in \<open>encode_message\<close>. Sifting reads results and sender bits only at
  positions where the choices agree, so it returns whenever those positions exist, also
  for shorter results and sender bits. The two \<open>measureQBER\<close> functions iterate over the
  length of their first argument and return for every pair of non-empty sequences of
  equal length.
\<close>

theorem C9_index_safety:
  "(n \<le> length bits \<and> n \<le> length bases \<longrightarrow>
      (\<exists>m. encode_message n bits bases = Inr m \<and> length m = n)) \<and>
   (\<not> (n \<le> length bits \<and> n \<le> length bases) \<longrightarrow>
      encode_message n bits bases = Inl IndexError) \<and>
   (n \<le> length message \<and> n \<le> length bases \<longrightarrow>
      measure_message n sim message bases \<noteq> Inl IndexError) \<and>
   (\<forall>ms m'. measure_message n sim message bases = Inr (ms, m') \<longrightarrow>
      length ms = n \<and> n \<le> length message \<and> n \<le> length bases) \<and>
   (n \<le> length pairs \<and> 2 * n \<le> length bits \<longrightarrow>
      (\<exists>m. encodeMessage n bits pairs = Inr m \<and> length m = n)) \<and>
   (\<not> n \<le> length pairs \<longrightarrow> encodeMessage n bits pairs = Inl IndexError) \<and>
   (n \<le> length message \<and> n \<le> length pairs \<longrightarrow>
      (\<exists>rs m'. decodeMessage n sim message pairs = Inr (rs, m') \<and> length rs = 2 * n)) \<and>
   (\<not> (n \<le> length message \<and> n \<le> length pairs) \<longrightarrow>
      decodeMessage n sim message pairs = Inl IndexError) \<and>
   (n \<le> length bases \<and> n \<le> length bases' \<and>
    (\<forall>i<n. bases ! i = bases' ! i \<longrightarrow> i < length results \<and> i < length bits) \<longrightarrow>
      (\<exists>out. discardBits n results bits bases bases' = Inr out)) \<and>
   (\<forall>out. discardBits n results bits bases bases' = Inr out \<longrightarrow>
      n \<le> length bases \<and> n \<le> length bases') \<and>
   (\<forall>out. discardBits_ent n results bits pairs pairs' = Inr out \<longrightarrow>
      n \<le> length pairs \<and> n \<le> length pairs') \<and>
   (0 < n \<and> 2 * n \<le> length bits \<and> 2 * n \<le> length results \<longrightarrow>
      (\<exists>v. measureBER n bits results = Inr (PFloat v))) \<and>
   (results \<noteq> [] \<and> length results = length bits \<longrightarrow>
      (\<exists>v. measureQBER results bits = Inr (PFloat v)) \<and>
      (\<exists>v. measureQBER_ent results bits = Inr (PFloat v))) \<and>
   (n \<le> length message \<and> n \<le> length bases \<and>
    (\<forall>q<n. \<exists>v. py_int (sim q (measure_basis (bases ! q) (message ! q))) = Inr v) \<longrightarrow>
      (\<exists>ms m'. measure_message n sim message bases = Inr (ms, m') \<and>
         length ms = n \<and> length m' = length message)) \<and>
   (ideal sim \<and> n \<le> length bits \<and> n \<le> length bases \<and>
    (\<forall>i<n. bits ! i \<in> {0, 1} \<and> bases ! i \<in> {0, 1}) \<longrightarrow>
      (\<exists>m ms m'. encode_message n bits bases = Inr m \<and>
         measure_message n sim m bases = Inr (ms, m') \<and> length ms = n)) \<and>
   (n \<le> length pairs \<and> n \<le> length pairs' \<and>
    (\<forall>i<n. pairs ! i = pairs' ! i \<longrightarrow>
       2 * i + 1 < length results \<and> 2 * i + 1 < length bits) \<longrightarrow>
      (\<exists>nr na. discardBits_ent n results bits pairs pairs' = Inr (nr, na) \<and>
         length nr = length na \<and> length nr \<le> 2 * n)) \<and>
   (n \<le> length pairs \<and> n \<le> length pairs' \<and>
    2 * n \<le> length results \<and> 2 * n \<le> length bits \<longrightarrow>
      (\<exists>nr na. discardBits_ent n results bits pairs pairs' = Inr (nr, na) \<and>
         length nr = length na \<and> length nr \<le> 2 * n)) \<and>
   (n \<le> length bases \<and> n \<le> length bases' \<and>
    n \<le> length results \<and> n \<le> length bits \<longrightarrow>
      (\<exists>nr na. discardBits n results bits bases bases' = Inr (nr, na) \<and>
         length nr = length na \<and> length nr \<le> n))"
proof (intro conjI impI allI)
  assume "n \<le> length bits \<and> n \<le> length bases"
  then show "\<exists>m. encode_message n bits bases = Inr m \<and> length m = n"
    using encode_message_value [of n bits bases] by simp
next
  assume "\<not> (n \<le> length bits \<and> n \<le> length bases)"
  then show "encode_message n bits bases = Inl IndexError" by (rule encode_message_raises)
next
  assume "n \<le> length message \<and> n \<le> length bases"
  then show "measure_message n sim message bases \<noteq> Inl IndexError"
    using measure_message_no_index_error by blast
next
  fix ms m' assume a: "measure_message n sim message bases = Inr (ms, m')"
  show "length ms = n" "n \<le> length message" "n \<le> length bases"
    using measure_message_success [OF a] by simp_all
next
  assume "n \<le> length pairs \<and> 2 * n \<le> length bits"
  then show "\<exists>m. encodeMessage n bits pairs = Inr m \<and> length m = n"
    using encodeMessage_value [of n pairs bits] by simp
next
  assume a: "\<not> n \<le> length pairs"
  show "encodeMessage n bits pairs = Inl IndexError"
  proof (cases "encodeMessage n bits pairs")
    case (Inl e)
    then show ?thesis using encodeMessage_error by blast
  next
    case (Inr m)
    then show ?thesis using encodeMessage_success [OF Inr] a by simp
  qed
next
  assume "n \<le> length message \<and> n \<le> length pairs"
  then show "\<exists>rs m'. decodeMessage n sim message pairs = Inr (rs, m') \<and> length rs = 2 * n"
    using decodeMessage_value [of n message pairs sim] length_decode_results by simp
next
  assume "\<not> (n \<le> length message \<and> n \<le> length pairs)"
  then show "decodeMessage n sim message pairs = Inl IndexError" by (rule decodeMessage_raises)
next
  assume "n \<le> length bases \<and> n \<le> length bases' \<and>
    (\<forall>i<n. bases ! i = bases' ! i \<longrightarrow> i < length results \<and> i < length bits)"
  then show "\<exists>out. discardBits n results bits bases bases' = Inr out"
    using discardBits_guarded [of n bases bases' results bits] by simp
next
  fix out assume a: "discardBits n results bits bases bases' = Inr out"
  show "n \<le> length bases" "n \<le> length bases'"
    using discardBits_success [OF a] by simp_all
next
  fix out assume a: "discardBits_ent n results bits pairs pairs' = Inr out"
  show "n \<le> length pairs" "n \<le> length pairs'"
    using discardBits_ent_success [OF a] by simp_all
next
  assume "0 < n \<and> 2 * n \<le> length bits \<and> 2 * n \<le> length results"
  then show "\<exists>v. measureBER n bits results = Inr (PFloat v)"
    using measureBER_returns by blast
next
  assume a: "results \<noteq> [] \<and> length results = length bits"
  show "\<exists>v. measureQBER results bits = Inr (PFloat v)"
    using measureQBER_value [of results bits] a by blast
  show "\<exists>v. measureQBER_ent results bits = Inr (PFloat v)"
    using measureQBER_ent_value [of results bits] a by blast
next
  assume "n \<le> length message \<and> n \<le> length bases \<and>
    (\<forall>q<n. \<exists>v. py_int (sim q (measure_basis (bases ! q) (message ! q))) = Inr v)"
  then show "\<exists>ms m'. measure_message n sim message bases = Inr (ms, m') \<and>
         length ms = n \<and> length m' = length message"
    using measure_message_returns [of n message bases sim] by blast
next
  assume "ideal sim \<and> n \<le> length bits \<and> n \<le> length bases \<and>
    (\<forall>i<n. bits ! i \<in> {0, 1} \<and> bases ! i \<in> {0, 1})"
  then show "\<exists>m ms m'. encode_message n bits bases = Inr m \<and>
         measure_message n sim m bases = Inr (ms, m') \<and> length ms = n"
    using bb84_measurements [of sim n bits bases] by blast
next
  assume "n \<le> length pairs \<and> n \<le> length pairs' \<and>
    (\<forall>i<n. pairs ! i = pairs' ! i \<longrightarrow>
       2 * i + 1 < length results \<and> 2 * i + 1 < length bits)"
  then show "\<exists>nr na. discardBits_ent n results bits pairs pairs' = Inr (nr, na) \<and>
         length nr = length na \<and> length nr \<le> 2 * n"
    using discardBits_ent_returns [of n pairs pairs' results bits] by blast
next
  assume a: "n \<le> length pairs \<and> n \<le> length pairs' \<and>
    2 * n \<le> length results \<and> 2 * n \<le> length bits"
  then have "\<forall>i<n. pairs ! i = pairs' ! i \<longrightarrow>
       2 * i + 1 < length results \<and> 2 * i + 1 < length bits"
    by auto
  then show "\<exists>nr na. discardBits_ent n results bits pairs pairs' = Inr (nr, na) \<and>
         length nr = length na \<and> length nr \<le> 2 * n"
    using discardBits_ent_returns [of n pairs pairs' results bits] a by blast
next
  assume a: "n \<le> length bases \<and> n \<le> length bases' \<and>
    n \<le> length results \<and> n \<le> length bits"
  then have "\<forall>i<n. bases ! i = bases' ! i \<longrightarrow> i < length results \<and> i < length bits"
    by auto
  then show "\<exists>nr na. discardBits n results bits bases bases' = Inr (nr, na) \<and>
         length nr = length na \<and> length nr \<le> n"
    using discardBits_returns [of n bases bases' results bits] a by blast
qed

text \<open>
  C9 as stated fails: sifting with an empty results sequence returns when no bases agree,
  and \<open>measureBER\<close> returns on a one-bit sequence when the first bits differ.
\<close>

theorem C9_counterexample:
  "discardBits 1 [] [] [0] [1] = Inr ([], []) \<and> measureBER 1 [0] [1] = Inr (PFloat 1)"
  by (simp add: discardBits_def measureBER_def block_equal_def get_def)

theorem C9_index_safety_witness:
  "(\<exists>m. encode_message 2 [0, 1, 1] [1, 0, 0] = Inr m \<and> length m = 2) \<and>
   encode_message 2 [0] [1, 0] = Inl IndexError \<and>
   (\<exists>rs m'. decodeMessage 1 (\<lambda>k qc. ''0100'') [block_circuit 0 0 1, block_circuit 0 0 0] [0] =
              Inr (rs, m') \<and> length rs = 2) \<and>
   decodeMessage 2 (\<lambda>k qc. ''0100'') [block_circuit 0 0 1] [0, 0] = Inl IndexError \<and>
   (\<exists>out. discardBits 2 [1] [0] [0, 1] [0, 0] = Inr out) \<and>
   (\<exists>v. measureBER 1 [0, 1] [0, 1, 1] = Inr (PFloat v)) \<and>
   (\<exists>ms m'. measure_message 2 (\<lambda>k qc. ''1'')
               [bb84_circuit 0 0, bb84_circuit 1 1, bb84_circuit 0 1] [0, 1] = Inr (ms, m') \<and>
             length ms = 2 \<and>
             length m' = length [bb84_circuit 0 0, bb84_circuit 1 1, bb84_circuit 0 1]) \<and>
   (\<exists>m ms m'. encode_message 2 [0, 1] [1, 0] = Inr m \<and>
               measure_message 2 (ideal_choice (\<lambda>k. ''0'')) m [1, 0] = Inr (ms, m') \<and>
               length ms = 2) \<and>
   (\<exists>nr na. discardBits_ent 2 [1, 0] [0, 0] [0, 1] [0, 0] = Inr (nr, na) \<and>
             length nr = length na \<and> length nr \<le> 2 * 2) \<and>
   (\<exists>nr na. discardBits_ent 1 [1, 0, 1] [0, 0] [2] [2] = Inr (nr, na) \<and>
             length nr = length na \<and> length nr \<le> 2 * 1) \<and>
   (\<exists>nr na. discardBits 2 [1, 0] [0, 0, 1] [0, 1] [0, 0] = Inr (nr, na) \<and>
             length nr = length na \<and> length nr \<le> 2)"
proof -
  have 1: "\<exists>m. encode_message 2 [0, 1, 1] [1, 0, 0] = Inr m \<and> length m = 2"
    by (rule C9_index_safety [where n = 2 and bits = "[0, 1, 1]" and bases = "[1, 0, 0]",
          THEN conjunct1, THEN mp]) simp
  have 2: "encode_message 2 [0] [1, 0] = Inl IndexError"
    by (rule C9_index_safety [where n = 2 and bits = "[0]" and bases = "[1, 0]",
          THEN conjunct2, THEN conjunct1, THEN mp]) simp
  have 3: "\<exists>rs m'. decodeMessage 1 (\<lambda>k qc. ''0100'') [block_circuit 0 0 1, block_circuit 0 0 0] [0] =
              Inr (rs, m') \<and> length rs = 2"
    using C9_index_safety [where n = 1 and sim = "\<lambda>k qc. ''0100''"
      and message = "[block_circuit 0 0 1, block_circuit 0 0 0]" and pairs = "[0]",
      THEN conjunct2, THEN conjunct2, THEN conjunct2, THEN conjunct2, THEN conjunct2, THEN conjunct2, THEN conjunct1]
    by simp
  have 4: "decodeMessage 2 (\<lambda>k qc. ''0100'') [block_circuit 0 0 1] [0, 0] = Inl IndexError"
    by (rule C9_index_safety [where n = 2 and sim = "\<lambda>k qc. ''0100''"
      and message = "[block_circuit 0 0 1]" and pairs = "[0, 0]",
      THEN conjunct2, THEN conjunct2, THEN conjunct2, THEN conjunct2, THEN conjunct2, THEN conjunct2, THEN conjunct2, THEN conjunct1, THEN mp]) simp
  have 5: "\<exists>out. discardBits 2 [1] [0] [0, 1] [0, 0] = Inr out"
    by (rule C9_index_safety [where n = 2 and results = "[1]" and bits = "[0]" and bases = "[0, 1]"
      and bases' = "[0, 0]", THEN conjunct2, THEN conjunct2, THEN conjunct2, THEN conjunct2, THEN conjunct2, THEN conjunct2, THEN conjunct2, THEN conjunct2, THEN conjunct1, THEN mp])
      (simp add: less_Suc_eq numeral_eq_Suc)
  have 6: "\<exists>v. measureBER 1 [0, 1] [0, 1, 1] = Inr (PFloat v)"
    by (rule C9_index_safety [where n = 1 and bits = "[0, 1]" and results = "[0, 1, 1]",
      THEN conjunct2, THEN conjunct2, THEN conjunct2, THEN conjunct2, THEN conjunct2, THEN conjunct2, THEN conjunct2, THEN conjunct2, THEN conjunct2, THEN conjunct2, THEN conjunct2, THEN conjunct1, THEN mp])
      simp
  have 7: "\<exists>ms m'. measure_message 2 (\<lambda>k qc. ''1'')
               [bb84_circuit 0 0, bb84_circuit 1 1, bb84_circuit 0 1] [0, 1] = Inr (ms, m') \<and>
             length ms = 2 \<and>
             length m' = length [bb84_circuit 0 0, bb84_circuit 1 1, bb84_circuit 0 1]"
    by (rule C9_index_safety [where n = 2 and sim = "\<lambda>k qc. ''1''"
      and message = "[bb84_circuit 0 0, bb84_circuit 1 1, bb84_circuit 0 1]" and bases = "[0, 1]",
      THEN conjunct2, THEN conjunct2, THEN conjunct2, THEN conjunct2, THEN conjunct2, THEN conjunct2, THEN conjunct2, THEN conjunct2, THEN conjunct2, THEN conjunct2, THEN conjunct2, THEN conjunct2, THEN conjunct2, THEN conjunct1, THEN mp])
      (simp add: py_int_1)
  have 8: "\<exists>m ms m'. encode_message 2 [0, 1] [1, 0] = Inr m \<and>
               measure_message 2 (ideal_choice (\<lambda>k. ''0'')) m [1, 0] = Inr (ms, m') \<and>
               length ms = 2"
    by (rule C9_index_safety [where n = 2 and sim = "ideal_choice (\<lambda>k. ''0'')"
      and bits = "[0, 1]" and bases = "[1, 0]",
      THEN conjunct2, THEN conjunct2, THEN conjunct2, THEN conjunct2, THEN conjunct2, THEN conjunct2, THEN conjunct2, THEN conjunct2, THEN conjunct2, THEN conjunct2, THEN conjunct2, THEN conjunct2, THEN conjunct2, THEN conjunct2, THEN conjunct1, THEN mp])
      (simp add: ideal_ideal_choice less_Suc_eq numeral_eq_Suc)
  have 9: "\<exists>nr na. discardBits_ent 2 [1, 0] [0, 0] [0, 1] [0, 0] = Inr (nr, na) \<and>
             length nr = length na \<and> length nr \<le> 2 * 2"
    by (rule C9_index_safety [where n = 2 and results = "[1, 0]" and bits = "[0, 0]"
      and pairs = "[0, 1]" and pairs' = "[0, 0]",
      THEN conjunct2, THEN conjunct2, THEN conjunct2, THEN conjunct2, THEN conjunct2, THEN conjunct2, THEN conjunct2, THEN conjunct2, THEN conjunct2, THEN conjunct2, THEN conjunct2, THEN conjunct2, THEN conjunct2, THEN conjunct2, THEN conjunct2, THEN conjunct1, THEN mp])
      (simp add: less_Suc_eq numeral_eq_Suc)
  have 10: "\<exists>nr na. discardBits_ent 1 [1, 0, 1] [0, 0] [2] [2] = Inr (nr, na) \<and>
             length nr = length na \<and> length nr \<le> 2 * 1"
    by (rule C9_index_safety [where n = 1 and results = "[1, 0, 1]" and bits = "[0, 0]"
      and pairs = "[2]" and pairs' = "[2]",
      THEN conjunct2, THEN conjunct2, THEN conjunct2, THEN conjunct2, THEN conjunct2, THEN conjunct2, THEN conjunct2, THEN conjunct2, THEN conjunct2, THEN conjunct2, THEN conjunct2, THEN conjunct2, THEN conjunct2, THEN conjunct2, THEN conjunct2, THEN conjunct2, THEN conjunct1, THEN mp])
      simp
  have 11: "\<exists>nr na. discardBits 2 [1, 0] [0, 0, 1] [0, 1] [0, 0] = Inr (nr, na) \<and>
             length nr = length na \<and> length nr \<le> 2"
    by (rule C9_index_safety [where n = 2 and results = "[1, 0]" and bits = "[0, 0, 1]"
      and bases = "[0, 1]" and bases' = "[0, 0]",
      THEN conjunct2, THEN conjunct2, THEN conjunct2, THEN conjunct2, THEN conjunct2, THEN conjunct2, THEN conjunct2, THEN conjunct2, THEN conjunct2, THEN conjunct2, THEN conjunct2, THEN conjunct2, THEN conjunct2, THEN conjunct2, THEN conjunct2, THEN conjunct2, THEN conjunct2, THEN mp])
      simp
  show ?thesis by (intro conjI 1 2 3 4 5 6 7 8 9 10 11)
qed

section \<open>The eavesdropper stage\<close>

lemma bindE_Inr_iff: "bindE m g = Inr y \<longleftrightarrow> (\<exists>x. m = Inr x \<and> g x = Inr y)"
  by (cases m) auto

lemma runProtocol_trial_steps:
  assumes "runProtocol_trial n d = Inr t"
  shows "encode_message n (alice_bits d) (alice_bases d) = Inr (t_message t) \<and>
         (\<exists>m'. measure_message n (eve_sim d) (t_message t) (eve_bases d) =
                  Inr (t_intercepted_message t, m')) \<and>
         encode_message n (t_intercepted_message t) (eve_bases d) = Inr (t_new_message t) \<and>
         (\<exists>m'. measure_message n (bob_sim d) (t_new_message t) (bob_bases d) =
                  Inr (t_bob_results t, m')) \<and>
         discardBits n (t_bob_results t) (alice_bits d) (alice_bases d) (bob_bases d) =
           Inr (t_newResults t, t_newAliceBits t) \<and>
         measureQBER (t_newResults t) (t_newAliceBits t) = Inr (t_QBER t)"
  using assms unfolding runProtocol_trial_def
  by (auto simp: bindE_Inr_iff)

lemma runProtocol_ent_trial_steps:
  assumes "runProtocol_ent_trial n eve d = Inr t"
  shows "encodeMessage n (d_aliceBits d) (d_alicePairs d) = Inr (e_sent t) \<and>
         (if eve then eveMeasureAndDecode n (d_eveSim d) (d_evePairs d) (e_sent t) = Inr (e_received t)
          else e_received t = e_sent t) \<and>
         (\<exists>m'. decodeMessage n (d_bobSim d) (e_received t) (d_bobPairs d) =
                  Inr (e_bobResults t, m')) \<and>
         measureBER n (d_aliceBits d) (e_bobResults t) = Inr (e_BER t) \<and>
         discardBits_ent n (e_bobResults t) (d_aliceBits d) (d_alicePairs d) (d_bobPairs d) =
           Inr (e_newResults t, e_newAliceBits t) \<and>
         measureQBER_ent (e_newResults t) (e_newAliceBits t) = Inr (e_QBER t)"
  using assms unfolding runProtocol_ent_trial_def
  by (auto simp: bindE_Inr_iff split: if_splits)

lemma eveMeasureAndDecode_steps:
  "eveMeasureAndDecode n sim evePairs message = Inr m \<longleftrightarrow>
     (\<exists>eveResults message'. decodeMessage n sim message evePairs = Inr (eveResults, message') \<and>
        encodeMessage n eveResults evePairs = Inr m)"
  unfolding eveMeasureAndDecode_def by (auto simp: bindE_Inr_iff)

lemma no_eve_independent:
  "runProtocol_ent_trial n False (d\<lparr>d_evePairs := ps, d_eveSim := sim\<rparr>) = runProtocol_ent_trial n False d"
  by (simp add: runProtocol_ent_trial_def)

text \<open>
  C8 (as amended). In the entanglement scripts the eavesdropper is controlled by the
  module-level toggle \<open>evePresent\<close>: with the toggle off, Bob decodes the message that
  Alice's encoder returned, unmodified, and Eve's draws have no effect on the trial; with
  the toggle on, that message is decoded with Eve's pairings and Bob decodes the message
  re-encoded from Eve's results. The BB84 script has no toggle: every BB84 trial measures
  Alice's message with Eve's bases and Bob measures the message re-encoded from Eve's
  results.
\<close>

theorem C8_eve_toggle:
  "(runProtocol_ent_trial n False d = Inr t \<longrightarrow>
      encodeMessage n (d_aliceBits d) (d_alicePairs d) = Inr (e_sent t) \<and>
      e_received t = e_sent t \<and>
      (\<exists>m'. decodeMessage n (d_bobSim d) (e_sent t) (d_bobPairs d) = Inr (e_bobResults t, m'))) \<and>
   runProtocol_ent_trial n False (d\<lparr>d_evePairs := ps, d_eveSim := sim\<rparr>) =
     runProtocol_ent_trial n False d \<and>
   (runProtocol_ent_trial n True d = Inr t \<longrightarrow>
      encodeMessage n (d_aliceBits d) (d_alicePairs d) = Inr (e_sent t) \<and>
      (\<exists>eveResults m'.
         decodeMessage n (d_eveSim d) (e_sent t) (d_evePairs d) = Inr (eveResults, m') \<and>
         encodeMessage n eveResults (d_evePairs d) = Inr (e_received t)) \<and>
      (\<exists>m'. decodeMessage n (d_bobSim d) (e_received t) (d_bobPairs d) = Inr (e_bobResults t, m'))) \<and>
   (runProtocol_trial n b = Inr u \<longrightarrow>
      encode_message n (alice_bits b) (alice_bases b) = Inr (t_message u) \<and>
      (\<exists>m'. measure_message n (eve_sim b) (t_message u) (eve_bases b) =
               Inr (t_intercepted_message u, m')) \<and>
      encode_message n (t_intercepted_message u) (eve_bases b) = Inr (t_new_message u) \<and>
      (\<exists>m'. measure_message n (bob_sim b) (t_new_message u) (bob_bases b) =
               Inr (t_bob_results u, m')))"
proof (intro conjI impI)
  assume a: "runProtocol_ent_trial n False d = Inr t"
  show "encodeMessage n (d_aliceBits d) (d_alicePairs d) = Inr (e_sent t)"
    "e_received t = e_sent t"
    "\<exists>m'. decodeMessage n (d_bobSim d) (e_sent t) (d_bobPairs d) = Inr (e_bobResults t, m')"
    using runProtocol_ent_trial_steps [OF a] by auto
next
  show "runProtocol_ent_trial n False (d\<lparr>d_evePairs := ps, d_eveSim := sim\<rparr>) =
     runProtocol_ent_trial n False d" by (rule no_eve_independent)
next
  assume a: "runProtocol_ent_trial n True d = Inr t"
  show "encodeMessage n (d_aliceBits d) (d_alicePairs d) = Inr (e_sent t)"
    "\<exists>eveResults m'.
         decodeMessage n (d_eveSim d) (e_sent t) (d_evePairs d) = Inr (eveResults, m') \<and>
         encodeMessage n eveResults (d_evePairs d) = Inr (e_received t)"
    "\<exists>m'. decodeMessage n (d_bobSim d) (e_received t) (d_bobPairs d) = Inr (e_bobResults t, m')"
    using runProtocol_ent_trial_steps [OF a] by (auto simp: eveMeasureAndDecode_steps)
next
  assume a: "runProtocol_trial n b = Inr u"
  show "encode_message n (alice_bits b) (alice_bases b) = Inr (t_message u)"
    "\<exists>m'. measure_message n (eve_sim b) (t_message u) (eve_bases b) =
               Inr (t_intercepted_message u, m')"
    "encode_message n (t_intercepted_message u) (eve_bases b) = Inr (t_new_message u)"
    "\<exists>m'. measure_message n (bob_sim b) (t_new_message u) (bob_bases b) =
               Inr (t_bob_results u, m')"
    using runProtocol_trial_steps [OF a] by auto
qed

lemma demo_trial:
  "runProtocol_trial 1 demo_draw =
     Inr \<lparr>t_message = [bb84_circuit 0 0], t_intercepted_message = [1],
          t_new_message = [bb84_circuit 1 1], t_bob_results = [1],
          t_newResults = [1], t_newAliceBits = [0], t_QBER = PFloat 1\<rparr>"
  by code_simp

text \<open>
  C8 as stated fails for BB84, whose \<open>runProtocol\<close> reads no toggle: in this trial on
  ideal backends Alice and Bob use the same basis, yet Bob measures a circuit other than
  the one Alice encoded and the sifted key is wrong in its only bit.
\<close>

theorem C8_counterexample:
  "ideal (eve_sim demo_draw) \<and> ideal (bob_sim demo_draw) \<and>
   alice_bases demo_draw = bob_bases demo_draw \<and>
   runProtocol_trial 1 demo_draw =
     Inr \<lparr>t_message = [bb84_circuit 0 0], t_intercepted_message = [1],
          t_new_message = [bb84_circuit 1 1], t_bob_results = [1],
          t_newResults = [1], t_newAliceBits = [0], t_QBER = PFloat 1\<rparr> \<and>
   bb84_circuit 1 1 \<noteq> bb84_circuit 0 0"
  using demo_trial ideal_ideal_choice [of always_one]
  by (simp add: demo_draw_def bb84_circuit_def)

lemma demo_ent_trial:
  "runProtocol_ent_trial 1 False demo_ent_draw =
     Inr \<lparr>e_sent = [block_circuit 1 0 1], e_received = [block_circuit 1 0 1],
          e_bobResults = [0, 1], e_BER = PFloat 0, e_newResults = [0, 1],
          e_newAliceBits = [0, 1], e_QBER = PFloat 0\<rparr>"
  by code_simp

theorem C8_eve_toggle_witness:
  "runProtocol_ent_trial 1 False demo_ent_draw =
     Inr \<lparr>e_sent = [block_circuit 1 0 1], e_received = [block_circuit 1 0 1],
          e_bobResults = [0, 1], e_BER = PFloat 0, e_newResults = [0, 1],
          e_newAliceBits = [0, 1], e_QBER = PFloat 0\<rparr> \<and>
   encodeMessage 1 [0, 1] [1] = Inr [block_circuit 1 0 1] \<and>
   (\<exists>m'. decodeMessage 1 (ideal_choice always_one) [block_circuit 1 0 1] [1] = Inr ([0, 1], m')) \<and>
   (\<exists>m'. measure_message 1 (ideal_choice always_one) [bb84_circuit 0 0] [1] = Inr ([1], m')) \<and>
   encode_message 1 [1] [1] = Inr [bb84_circuit 1 1]"
proof -
  note t = C8_eve_toggle [where n = 1 and d = demo_ent_draw and b = demo_draw]
  have 1: "encodeMessage 1 [0, 1] [1] = Inr [block_circuit 1 0 1] \<and>
   (\<exists>m'. decodeMessage 1 (ideal_choice always_one) [block_circuit 1 0 1] [1] = Inr ([0, 1], m'))"
    using t [THEN conjunct1, THEN mp, OF demo_ent_trial] by (simp add: demo_ent_draw_def)
  have 2: "(\<exists>m'. measure_message 1 (ideal_choice always_one) [bb84_circuit 0 0] [1] = Inr ([1], m')) \<and>
   encode_message 1 [1] [1] = Inr [bb84_circuit 1 1]"
    using t [THEN conjunct2, THEN conjunct2, THEN conjunct2, THEN mp, OF demo_trial]
    by (simp add: demo_draw_def)
  show ?thesis using demo_ent_trial 1 2 by blast
qed

section \<open>The BB84 trial loop\<close>

lemma py_eq_null [simp]: "py_eq q (PStr ''null'') \<longleftrightarrow> q = PStr ''null''"
  by (cases q) auto

























section \<open>The decode lookup\<close>

text \<open>
  C4. The lookup on the memory string is total: \<open>"0001"\<close> gives (0,0), \<open>"0100"\<close> gives
  (0,1), \<open>"1011"\<close> gives (1,0) and every other string gives (1,1), among them 13 of the
  16 strings of four bits; every string gives one of the four 2-bit results, and a
  decoder call that returns has appended the two bits looked up for the memory string of
  each of its blocks, in order.
\<close>

theorem C4_decode_lookup:
  "decode_lookup ''0001'' = [0, 0] \<and> decode_lookup ''0100'' = [0, 1] \<and>
   decode_lookup ''1011'' = [1, 0] \<and>
   (\<forall>s. s \<noteq> ''0001'' \<and> s \<noteq> ''0100'' \<and> s \<noteq> ''1011'' \<longrightarrow> decode_lookup s = [1, 1]) \<and>
   length (filter (\<lambda>s. decode_lookup s = [1, 1]) (bit_strings 4)) = 13 \<and>
   length (bit_strings 4) = 16 \<and>
   (\<forall>s. decode_lookup s \<in> {[0, 0], [0, 1], [1, 0], [1, 1]}) \<and>
   (decodeMessage n sim message pairs = Inr (rs, decoded) \<longrightarrow>
      rs = concat (map (\<lambda>i. decode_lookup (sim i (decoded ! i))) [0..<n]) \<and> length rs = 2 * n)"
proof -
  have "decode_lookup ''0001'' = [0, 0] \<and> decode_lookup ''0100'' = [0, 1] \<and>
   decode_lookup ''1011'' = [1, 0] \<and>
   (\<forall>s. s \<noteq> ''0001'' \<and> s \<noteq> ''0100'' \<and> s \<noteq> ''1011'' \<longrightarrow> decode_lookup s = [1, 1]) \<and>
   length (filter (\<lambda>s. decode_lookup s = [1, 1]) (bit_strings 4)) = 13 \<and>
   length (bit_strings 4) = 16 \<and>
   (\<forall>s. decode_lookup s \<in> {[0, 0], [0, 1], [1, 0], [1, 1]})"
    by (simp add: decode_lookup_def numeral_eq_Suc)
  moreover have "decodeMessage n sim message pairs = Inr (rs, decoded) \<longrightarrow>
      rs = concat (map (\<lambda>i. decode_lookup (sim i (decoded ! i))) [0..<n]) \<and> length rs = 2 * n"
    using decodeMessage_frame [of n sim message pairs rs decoded] by blast
  ultimately show ?thesis by blast
qed

theorem C4_decode_lookup_witness:
  "decode_lookup ''1110'' = [1, 1] \<and> decode_lookup ''0000'' = [1, 1] \<and>
   decode_lookup ''abc'' = [1, 1] \<and>
   decodeMessage 2 (\<lambda>k qc. ''1110'') [block_circuit 0 0 0, block_circuit 1 1 1] [0, 1] =
     Inr ([1, 1, 1, 1],
          [decode_gates 0 (block_circuit 0 0 0), decode_gates 1 (block_circuit 1 1 1)])"
proof -
  have run: "decodeMessage 2 (\<lambda>k qc. ''1110'') [block_circuit 0 0 0, block_circuit 1 1 1] [0, 1] =
     Inr (decode_lookup ''1110'' @ decode_lookup ''1110'',
          [decode_gates 0 (block_circuit 0 0 0), decode_gates 1 (block_circuit 1 1 1)])"
    using decodeMessage_value [of 2 "[block_circuit 0 0 0, block_circuit 1 1 1]" "[0, 1]"
        "\<lambda>k qc. ''1110''"]
    by (simp add: numeral_eq_Suc)
  have 1: "decode_lookup ''1110'' = [1, 1] \<and> decode_lookup ''0000'' = [1, 1] \<and>
           decode_lookup ''abc'' = [1, 1]"
    using C4_decode_lookup [where n = 2 and sim = "\<lambda>k qc. ''1110''"
      and message = "[block_circuit 0 0 0, block_circuit 1 1 1]" and pairs = "[0, 1]"]
    by simp
  show ?thesis using 1 run by simp
qed

end
